theory Spec2Isabelle
  imports Complex_Main
begin

section \<open>Strings\<close>

text \<open>
  A JavaScript string is modelled as a \<open>string\<close> holding the bytes of its (valid) UTF-8
  encoding, so the ASCII characters the code tests for (\<open>/\<close>, \<open>.\<close>, \<open>:\<close>, letters,
  digits) are single \<open>char\<close>s and never occur inside the encoding of another character.
\<close>

definition startsWith :: "string \<Rightarrow> string \<Rightarrow> bool" where
  \<comment> \<open>\<open>s.startsWith(p)\<close>\<close>
  "startsWith p s \<longleftrightarrow> take (length p) s = p"

definition endsWith :: "string \<Rightarrow> string \<Rightarrow> bool" where
  \<comment> \<open>the text ends in \<open>p\<close>: what a pattern \<open>p$\<close> tests\<close>
  "endsWith p s \<longleftrightarrow> length p \<le> length s \<and> drop (length s - length p) s = p"

definition ws_seqs :: "string list" where
  \<comment> \<open>ECMAScript WhiteSpace and LineTerminator code points, in UTF-8:
      TAB, LF, VT, FF, CR, SP, U+00A0, U+1680, U+2000 to U+200A, U+2028, U+2029,
      U+202F, U+205F, U+3000, U+FEFF\<close>
  "ws_seqs =
    [[CHR 0x09], [CHR 0x0A], [CHR 0x0B], [CHR 0x0C], [CHR 0x0D], [CHR 0x20],
     [CHR 0xC2, CHR 0xA0], [CHR 0xE1, CHR 0x9A, CHR 0x80],
     [CHR 0xE2, CHR 0x80, CHR 0x80], [CHR 0xE2, CHR 0x80, CHR 0x81],
     [CHR 0xE2, CHR 0x80, CHR 0x82], [CHR 0xE2, CHR 0x80, CHR 0x83],
     [CHR 0xE2, CHR 0x80, CHR 0x84], [CHR 0xE2, CHR 0x80, CHR 0x85],
     [CHR 0xE2, CHR 0x80, CHR 0x86], [CHR 0xE2, CHR 0x80, CHR 0x87],
     [CHR 0xE2, CHR 0x80, CHR 0x88], [CHR 0xE2, CHR 0x80, CHR 0x89],
     [CHR 0xE2, CHR 0x80, CHR 0x8A], [CHR 0xE2, CHR 0x80, CHR 0xA8],
     [CHR 0xE2, CHR 0x80, CHR 0xA9], [CHR 0xE2, CHR 0x80, CHR 0xAF],
     [CHR 0xE2, CHR 0x81, CHR 0x9F], [CHR 0xE3, CHR 0x80, CHR 0x80],
     [CHR 0xEF, CHR 0xBB, CHR 0xBF]]"

function dropSeqs :: "string list \<Rightarrow> string \<Rightarrow> string" where
  \<comment> \<open>removes, from the front, every leading occurrence of one of the sequences\<close>
  "dropSeqs ws s =
     (case find (\<lambda>w. w \<noteq> [] \<and> startsWith w s) ws of
        None \<Rightarrow> s
      | Some w \<Rightarrow> dropSeqs ws (drop (length w) s))"
  by pat_completeness auto
termination
proof (relation "measure (\<lambda>(ws, s). length s)")
  show "wf (measure (\<lambda>(ws, s). length s))" by simp
next
  fix ws :: "string list" and s w :: string
  assume "find (\<lambda>w. w \<noteq> [] \<and> startsWith w s) ws = Some w"
  then have "w \<noteq> []" and "startsWith w s"
    by (auto simp: find_Some_iff)
  then have "0 < length w" and "length w = min (length s) (length w)"
    by (simp, metis startsWith_def length_take)
  then have "length s - length w < length s"
    by arith
  then show "((ws, drop (length w) s), (ws, s)) \<in> measure (\<lambda>(ws, s). length s)"
    by simp
qed

declare dropSeqs.simps [simp del]

definition trim :: "string \<Rightarrow> string" where
  \<comment> \<open>\<open>s.trim()\<close>: white space removed at both ends\<close>
  "trim s = rev (dropSeqs (map rev ws_seqs) (rev (dropSeqs ws_seqs s)))"

definition stripTrailingSlashes :: "string \<Rightarrow> string" where
  \<comment> \<open>\<open>url.replace(/\/+$/, '')\<close>\<close>
  "stripTrailingSlashes s = rev (dropWhile (\<lambda>c. c = CHR ''/'') (rev s))"

definition stripJsonSuffix :: "string \<Rightarrow> string" where
  \<comment> \<open>\<open>url.replace(/\.json$/, '')\<close>\<close>
  "stripJsonSuffix s = (if endsWith ''.json'' s then take (length s - 5) s else s)"

definition isIdChar :: "char \<Rightarrow> bool" where
  \<comment> \<open>the class \<open>[a-z0-9-]\<close> under the \<open>i\<close> flag\<close>
  "isIdChar c \<longleftrightarrow>
     c \<in> set ''abcdefghijklmnopqrstuvwxyzABCDEFGHIJKLMNOPQRSTUVWXYZ0123456789-''"

definition isProjectId :: "string \<Rightarrow> bool" where
  \<comment> \<open>\<open>/^[a-z0-9-]+$/i.test(url)\<close>\<close>
  "isProjectId s \<longleftrightarrow> s \<noteq> [] \<and> list_all isIdChar s"

section \<open>Store client: URL normalization and endpoints\<close>

definition cleanUrl :: "string \<Rightarrow> string" where
  "cleanUrl input =
     (let url = trim input;
          url = stripTrailingSlashes url;
          url = stripJsonSuffix url
      in if isProjectId url then ''https://'' @ url @ ''.firebaseio.com''
         else if \<not> startsWith ''http://'' url \<and> \<not> startsWith ''https://'' url
              then ''https://'' @ url
         else url)"

definition splitOn :: "char \<Rightarrow> string \<Rightarrow> string list" where
  \<comment> \<open>\<open>s.split(sep)\<close> for a one-character separator: never the empty list\<close>
  "splitOn sep s =
     foldr (\<lambda>c acc. if c = sep then [] # acc
                     else (case acc of [] \<Rightarrow> [[c]] | x # xs \<Rightarrow> (c # x) # xs)) s [[]]"

fun join :: "string \<Rightarrow> string list \<Rightarrow> string" where
  \<comment> \<open>\<open>xs.join(sep)\<close>\<close>
  "join sep [] = []"
| "join sep [x] = x"
| "join sep (x # y # ys) = x @ sep @ join sep (y # ys)"

definition uriUnreserved :: "char \<Rightarrow> bool" where
  \<comment> \<open>the characters \<open>encodeURIComponent\<close> leaves alone: letters, digits and
      \<open>- _ . ! ~ * ' ( )\<close>\<close>
  "uriUnreserved c \<longleftrightarrow>
     c \<in> set (''ABCDEFGHIJKLMNOPQRSTUVWXYZabcdefghijklmnopqrstuvwxyz0123456789-_.!~*()''
              @ [CHR 0x27])"

definition hexDigit :: "nat \<Rightarrow> char" where
  "hexDigit n = ''0123456789ABCDEF'' ! (n mod 16)"

definition encodeByte :: "char \<Rightarrow> string" where
  "encodeByte c =
     (if uriUnreserved c then [c]
      else [CHR ''%'', hexDigit (of_char c div 16), hexDigit (of_char c mod 16)])"

definition encodeURIComponent :: "string \<Rightarrow> string" where
  \<comment> \<open>every byte of the UTF-8 encoding that is not unreserved becomes \<open>%XX\<close>;
      the URIError on a lone surrogate cannot arise, a lone surrogate having no UTF-8 form\<close>
  "encodeURIComponent s = concat (map encodeByte s)"

definition buildEndpoint :: "string \<Rightarrow> string \<Rightarrow> string" where
  "buildEndpoint baseUrl path =
     (let cleanBase = cleanUrl baseUrl in
      if path = [] then cleanBase @ ''/.json''
      else
        let cleanPath = dropWhile (\<lambda>c. c = CHR ''/'') path;
            encodedPath = join ''/'' (map encodeURIComponent (splitOn CHR ''/'' cleanPath))
        in cleanBase @ ''/'' @ encodedPath @ ''.json'')"

fun showNat :: "nat \<Rightarrow> string" where
  \<comment> \<open>a non-negative integer in a template literal: its decimal digits\<close>
  "showNat n =
     (if n < 10 then [char_of (48 + n)]
      else showNat (n div 10) @ [char_of (48 + n mod 10)])"

declare showNat.simps [simp del]

fun includesStr :: "string \<Rightarrow> string \<Rightarrow> bool" where
  \<comment> \<open>\<open>s.includes(p)\<close>\<close>
  "includesStr p [] = (p = [])"
| "includesStr p (c # s) = (startsWith p (c # s) \<or> includesStr p s)"

definition orElse :: "string \<Rightarrow> string \<Rightarrow> string" where
  \<comment> \<open>\<open>a || b\<close> on strings: the empty string is falsy\<close>
  "orElse a b = (if a = [] then b else a)"

section \<open>Values, errors and the runtime\<close>

text \<open>
  A number is NaN, an infinity, or a finite double, held as its exact value (\<open>-0\<close> is not
  told apart from \<open>0\<close>). A value is what \<open>JSON.parse\<close> can return, or \<open>undefined\<close>;
  an object is the list of its entries in the order in which the engine enumerates them
  (array-index keys first, in ascending order, then the other keys in insertion order),
  with distinct keys.
\<close>

datatype jsnum = NaN | PosInf | NegInf | Fin rat

datatype jsval =
    JUndefined
  | JNull
  | JBool bool
  | JNum jsnum
  | JStr string
  | JArr "jsval list"
  | JObj "(string \<times> jsval) list"

record jsError =
  errName :: string
  errMessage :: string

definition mkError :: "string \<Rightarrow> jsError" where
  \<comment> \<open>\<open>new Error(m)\<close>\<close>
  "mkError m = \<lparr>errName = ''Error'', errMessage = m\<rparr>"

text \<open>
  The built-ins the code calls and the repository does not define are parameters:
  \<open>Number(s)\<close>; \<open>JSON.parse(s)\<close>, \<open>None\<close> when it throws; \<open>JSON.stringify(v, null, 2)\<close>; and
  the message of the TypeError the engine raises when a member of a value that has none is
  read or called.
\<close>

record runtime =
  Number :: "string \<Rightarrow> jsnum"
  JSON_parse :: "string \<Rightarrow> jsval option"
  JSON_stringify :: "jsval \<Rightarrow> string"
  typeErrorText :: "jsval \<Rightarrow> string"

definition isNaN :: "jsnum \<Rightarrow> bool" where
  "isNaN n \<longleftrightarrow> n = NaN"

definition isFinite :: "jsnum \<Rightarrow> bool" where
  "isFinite n \<longleftrightarrow> (case n of Fin q \<Rightarrow> True | _ \<Rightarrow> False)"

fun truthy :: "jsval \<Rightarrow> bool" where
  "truthy JUndefined = False"
| "truthy JNull = False"
| "truthy (JBool b) = b"
| "truthy (JNum n) = (n \<noteq> NaN \<and> n \<noteq> Fin 0)"
| "truthy (JStr s) = (s \<noteq> [])"
| "truthy (JArr xs) = True"
| "truthy (JObj kvs) = True"

fun member :: "jsval \<Rightarrow> string \<Rightarrow> jsval option" where
  \<comment> \<open>\<open>v.k\<close> for the keys the code reads (\<open>type\<close>, \<open>path\<close>, \<open>data\<close>, \<open>message\<close>,
      \<open>actions\<close>), none of which a prototype defines; \<open>None\<close> is the TypeError on
      \<open>null\<close> and \<open>undefined\<close>\<close>
  "member JUndefined k = None"
| "member JNull k = None"
| "member (JObj kvs) k = Some (case map_of kvs k of None \<Rightarrow> JUndefined | Some v \<Rightarrow> v)"
| "member v k = Some JUndefined"

fun isObject :: "jsval \<Rightarrow> bool" where
  \<comment> \<open>\<open>value !== null && typeof value === 'object'\<close>\<close>
  "isObject (JArr xs) = True"
| "isObject (JObj kvs) = True"
| "isObject v = False"

fun jsonValue :: "jsval \<Rightarrow> jsval" where
  \<comment> \<open>the value that the text \<open>JSON.stringify\<close> writes for a value denotes: NaN and the
      infinities are written as \<open>null\<close>, \<open>undefined\<close> is written as \<open>null\<close> in an array
      and its entry is left out of an object\<close>
  "jsonValue JUndefined = JNull"
| "jsonValue (JNum n) = (if isFinite n then JNum n else JNull)"
| "jsonValue (JArr xs) = JArr (map jsonValue xs)"
| "jsonValue (JObj kvs) =
     JObj (map (\<lambda>(k, v). (k, jsonValue v)) (filter (\<lambda>(k, v). v \<noteq> JUndefined) kvs))"
| "jsonValue v = v"

definition stringified :: "jsval \<Rightarrow> jsval option" where
  \<comment> \<open>\<open>body: JSON.stringify(data)\<close>, as the value the body text denotes; \<open>None\<close> when
      \<open>data\<close> is \<open>undefined\<close> and the request has no body\<close>
  "stringified v = (if v = JUndefined then None else Some (jsonValue v))"

section \<open>The remote store\<close>

text \<open>
  A request is the HTTP method, the endpoint and the body, held as the JSON value its text
  denotes (the fixed headers and cache mode are left out). The store answers a request, given
  the requests made before it, by rejecting the fetch or by a response; \<open>json\<close> is the
  outcome of \<open>res.json()\<close>. The world records every request made, every alert shown and
  how often a node asked its owner to refresh.
\<close>

record request =
  httpMethod :: string
  endpoint :: string
  body :: "jsval option"

record response =
  status :: nat
  statusText :: string
  json :: "jsError + jsval"

datatype fetched = Rejected jsError | Resolved response

type_synonym server = "request list \<Rightarrow> request \<Rightarrow> fetched"

record world =
  requests :: "request list"
  alerts :: "string list"
  refreshes :: nat

definition fetch :: "server \<Rightarrow> request \<Rightarrow> world \<Rightarrow> fetched \<times> world" where
  "fetch srv rq w = (srv (requests w) rq, w\<lparr>requests := requests w @ [rq]\<rparr>)"

definition ok :: "response \<Rightarrow> bool" where
  \<comment> \<open>\<open>res.ok\<close>\<close>
  "ok res \<longleftrightarrow> 200 \<le> status res \<and> status res \<le> 299"

definition noEntry :: string where
  \<comment> \<open>U+26D4\<close>
  "noEntry = [CHR 0xE2, CHR 0x9B, CHR 0x94]"

definition crossMark :: string where
  \<comment> \<open>U+274C\<close>
  "crossMark = [CHR 0xE2, CHR 0x9D, CHR 0x8C]"

definition warningSign :: string where
  \<comment> \<open>U+26A0 U+FE0F\<close>
  "warningSign = [CHR 0xE2, CHR 0x9A, CHR 0xA0, CHR 0xEF, CHR 0xB8, CHR 0x8F]"

definition stopwatch :: string where
  \<comment> \<open>U+23F1 U+FE0F\<close>
  "stopwatch = [CHR 0xE2, CHR 0x8F, CHR 0xB1, CHR 0xEF, CHR 0xB8, CHR 0x8F]"

definition globe :: string where
  \<comment> \<open>U+1F310\<close>
  "globe = [CHR 0xF0, CHR 0x9F, CHR 0x8C, CHR 0x90]"

definition checkConnection :: "server \<Rightarrow> string \<Rightarrow> world \<Rightarrow> (jsError + bool) \<times> world" where
  "checkConnection srv url w =
     (let target = cleanUrl url @ ''/.json?shallow=true'';
          (r, w') = fetch srv \<lparr>httpMethod = ''GET'', endpoint = target, body = None\<rparr> w;
          attempt =
            (case r of
               Rejected e \<Rightarrow> Inl e
             | Resolved res \<Rightarrow>
                 if ok res then Inr True
                 else if status res = 401 then
                   Inl (mkError (noEntry @ '' Permission Denied (401): Database rules prevent reading.''))
                 else if status res = 404 then
                   Inl (mkError (crossMark @ '' Database Not Found (404): Check your Project ID.''))
                 else if status res = 400 then
                   Inl (mkError (warningSign @ '' Bad Request (400): Invalid URL format.''))
                 else Inl (mkError (warningSign @ '' Connection Error: '' @ showNat (status res))))
      in (case attempt of
            Inr b \<Rightarrow> Inr b
          | Inl error \<Rightarrow>
              if errName error = ''AbortError'' then
                Inl (mkError (stopwatch @ '' Timeout: Server took too long.''))
              else if startsWith noEntry (errMessage error)
                    \<or> startsWith crossMark (errMessage error)
                    \<or> startsWith warningSign (errMessage error) then Inl error
              else Inl (mkError (globe @ '' Network Error: '' @ errMessage error)),
          w'))"

definition readData :: "server \<Rightarrow> string \<Rightarrow> string \<Rightarrow> world \<Rightarrow> (jsError + jsval) \<times> world" where
  "readData srv baseUrl path w =
     (let ep = buildEndpoint baseUrl path;
          (r, w') = fetch srv \<lparr>httpMethod = ''GET'', endpoint = ep, body = None\<rparr> w;
          attempt =
            (case r of
               Rejected e \<Rightarrow> Inl e
             | Resolved res \<Rightarrow>
                 if \<not> ok res then
                   (if status res = 401 then Inl (mkError ''Permission Denied (401)'')
                    else Inl (mkError (''Failed to read data: '' @ statusText res)))
                 else json res)
      in (case attempt of
            Inr v \<Rightarrow> Inr v
          | Inl error \<Rightarrow> Inl (mkError (orElse (errMessage error) ''Failed to fetch data'')),
          w'))"

definition writeData :: "server \<Rightarrow> string \<Rightarrow> string \<Rightarrow> jsval \<Rightarrow> world \<Rightarrow> (jsError + unit) \<times> world" where
  "writeData srv baseUrl path d w =
     (let ep = buildEndpoint baseUrl path;
          (r, w') = fetch srv \<lparr>httpMethod = ''PUT'', endpoint = ep, body = stringified d\<rparr> w;
          attempt =
            (case r of
               Rejected e \<Rightarrow> Inl e
             | Resolved res \<Rightarrow>
                 if \<not> ok res then
                   (if status res = 401 then Inl (mkError ''Permission Denied (401)'')
                    else Inl (mkError (''Failed to write data: '' @ statusText res)))
                 else Inr ())
      in (case attempt of
            Inr u \<Rightarrow> Inr u
          | Inl error \<Rightarrow> Inl (mkError (orElse (errMessage error) ''Failed to write data'')),
          w'))"

definition updateData :: "server \<Rightarrow> string \<Rightarrow> string \<Rightarrow> jsval \<Rightarrow> world \<Rightarrow> (jsError + unit) \<times> world" where
  "updateData srv baseUrl path d w =
     (let ep = buildEndpoint baseUrl path;
          (r, w') = fetch srv \<lparr>httpMethod = ''PATCH'', endpoint = ep, body = stringified d\<rparr> w;
          attempt =
            (case r of
               Rejected e \<Rightarrow> Inl e
             | Resolved res \<Rightarrow>
                 if \<not> ok res then
                   (if status res = 401 then Inl (mkError ''Permission Denied (401)'')
                    else Inl (mkError (''Failed to update data: '' @ statusText res)))
                 else Inr ())
      in (case attempt of
            Inr u \<Rightarrow> Inr u
          | Inl error \<Rightarrow> Inl (mkError (orElse (errMessage error) ''Failed to update data'')),
          w'))"

definition deleteData :: "server \<Rightarrow> string \<Rightarrow> string \<Rightarrow> world \<Rightarrow> (jsError + unit) \<times> world" where
  "deleteData srv baseUrl path w =
     (let ep = buildEndpoint baseUrl path;
          (r, w') = fetch srv \<lparr>httpMethod = ''DELETE'', endpoint = ep, body = None\<rparr> w;
          attempt =
            (case r of
               Rejected e \<Rightarrow> Inl e
             | Resolved res \<Rightarrow>
                 if \<not> ok res then
                   (if status res = 401 then Inl (mkError ''Permission Denied (401): Delete blocked.'')
                    else Inl (mkError (''Failed to delete data: '' @ statusText res)))
                 else Inr ())
      in (case attempt of
            Inr u \<Rightarrow> Inr u
          | Inl error \<Rightarrow> Inl (mkError (orElse (errMessage error) ''Failed to delete data'')),
          w'))"

section \<open>Plan generator: reading the reply\<close>

record AIResponse =
  message :: jsval
  actions :: "jsval list"

text \<open>
  The call to the text-generation service is outside the repository; \<open>reply\<close> is its
  outcome, an exception or the \<open>text\<close> of the response (\<open>None\<close> when absent). The
  function below is \<open>generateDataWithAI\<close> from there on: the inner \<open>try\<close> around
  \<open>JSON.parse\<close> and the use of \<open>parsed\<close>, then the outer \<open>catch\<close>.
\<close>

definition generateDataWithAI :: "runtime \<Rightarrow> jsError + string option \<Rightarrow> jsError + AIResponse" where
  "generateDataWithAI rt reply =
     (let attempt =
            (case reply of
               Inl e \<Rightarrow> Inl e
             | Inr None \<Rightarrow> Inl (mkError ''No response from AI'')
             | Inr (Some text) \<Rightarrow>
                 if text = [] then Inl (mkError ''No response from AI'')
                 else
                   (case JSON_parse rt text of
                      None \<Rightarrow> Inl (mkError ''AI response was not valid JSON.'')
                    | Some parsed \<Rightarrow>
                        (case (member parsed ''message'', member parsed ''actions'') of
                           (Some m, Some a) \<Rightarrow>
                             Inr \<lparr>message = (if truthy m then m else JStr ''Here is the plan.''),
                                  actions = (case a of JArr xs \<Rightarrow> xs | _ \<Rightarrow> [])\<rparr>
                         | _ \<Rightarrow> Inl (mkError ''AI response was not valid JSON.''))))
      in (case attempt of
            Inr plan \<Rightarrow> Inr plan
          | Inl error \<Rightarrow>
              if includesStr ''404'' (errMessage error) \<or> includesStr ''NOT_FOUND'' (errMessage error)
              then Inl (mkError ''Model not found. Check API Key.'')
              else Inl (mkError (''AI Error: '' @ orElse (errMessage error) ''Failed to process request''))))"

section \<open>Application state and plan execution\<close>

record DbConnection =
  url :: string
  connected :: bool

record Notification =
  n_type :: string
  n_message :: string

datatype viewMode = Tree | Raw

text \<open>
  The state variables of \<open>App\<close> that \<open>handleExecuteAiPlan\<close> and \<open>fetchRootData\<close> read or
  write. A notification is kept in the list for good: its \<open>id\<close> and its removal after four
  seconds are left out.
\<close>

record app =
  dbInfo :: DbConnection
  appData :: jsval
  loading :: bool
  notifications :: "Notification list"
  viewMode :: viewMode
  rawJsonInput :: string
  showAiModal :: bool
  aiPrompt :: string
  aiPath :: string
  aiResult :: "AIResponse option"

definition notify :: "string \<Rightarrow> string \<Rightarrow> app \<Rightarrow> app" where
  "notify msg ty st = st\<lparr>notifications := notifications st @ [\<lparr>n_type = ty, n_message = msg\<rparr>]\<rparr>"

definition fetchRootData :: "runtime \<Rightarrow> server \<Rightarrow> app \<Rightarrow> world \<Rightarrow> app \<times> world" where
  "fetchRootData rt srv st w =
     (let st1 = st\<lparr>loading := True\<rparr>;
          (r, w') = readData srv (url (dbInfo st)) [] w;
          st2 =
            (case r of
               Inr result \<Rightarrow>
                 (let st' = st1\<lparr>appData := result\<rparr>
                  in if viewMode st = Raw then st'\<lparr>rawJsonInput := JSON_stringify rt result\<rparr>
                     else st')
             | Inl err \<Rightarrow> notify (orElse (errMessage err) ''Failed to fetch data'') ''error'' st1)
      in (st2\<lparr>loading := False\<rparr>, w'))"

definition field :: "jsval \<Rightarrow> string \<Rightarrow> jsval" where
  \<comment> \<open>\<open>v.k\<close> once \<open>v\<close> is known to be neither \<open>null\<close> nor \<open>undefined\<close>\<close>
  "field v k = (case member v k of None \<Rightarrow> JUndefined | Some x \<Rightarrow> x)"

definition typeError :: "runtime \<Rightarrow> jsval \<Rightarrow> jsError" where
  "typeError rt v = \<lparr>errName = ''TypeError'', errMessage = typeErrorText rt v\<rparr>"

definition execAction :: "runtime \<Rightarrow> server \<Rightarrow> string \<Rightarrow> jsval \<Rightarrow> world \<Rightarrow> (jsError + unit) \<times> world" where
  \<comment> \<open>the body of the loop, up to \<open>successCount++\<close>\<close>
  "execAction rt srv base action w =
     (case member action ''path'' of
        None \<Rightarrow> (Inl (typeError rt action), w)
      | Some (JStr p) \<Rightarrow>
          (let fullPath = (if startsWith ''/'' p then drop 1 p else p)
           in if field action ''type'' = JStr ''DELETE'' then deleteData srv base fullPath w
              else if field action ''type'' = JStr ''SET'' then
                writeData srv base fullPath (field action ''data'') w
              else if field action ''type'' = JStr ''UPDATE'' then
                updateData srv base fullPath (field action ''data'') w
              else (Inr (), w))
      | Some v \<Rightarrow> (Inl (typeError rt v), w))"

fun runActions :: "runtime \<Rightarrow> server \<Rightarrow> string \<Rightarrow> jsval list \<Rightarrow> nat \<Rightarrow> world \<Rightarrow> (jsError + nat) \<times> world" where
  \<comment> \<open>the \<open>for\<close> loop over \<open>aiResult.actions\<close>\<close>
  "runActions rt srv base [] successCount w = (Inr successCount, w)"
| "runActions rt srv base (action # rest) successCount w =
     (case execAction rt srv base action w of
        (Inl e, w') \<Rightarrow> (Inl e, w')
      | (Inr u, w') \<Rightarrow> runActions rt srv base rest (successCount + 1) w')"

text \<open>
  \<open>fetchRootData()\<close> is started, not awaited; the model runs it to its end before the
  \<open>finally\<close> block, which leaves the same final state.
\<close>

definition handleExecuteAiPlan :: "runtime \<Rightarrow> server \<Rightarrow> app \<Rightarrow> world \<Rightarrow> app \<times> world" where
  "handleExecuteAiPlan rt srv st w =
     (case aiResult st of
        None \<Rightarrow> (st, w)
      | Some plan \<Rightarrow>
          if actions plan = [] then (st, w)
          else
            (let st1 = st\<lparr>loading := True\<rparr>;
                 (r, w1) = runActions rt srv (url (dbInfo st)) (actions plan) 0 w
             in (case r of
                   Inr successCount \<Rightarrow>
                     (let st2 = notify (''Successfully executed '' @ showNat successCount @ '' actions.'')
                                  ''success'' st1;
                          st3 = st2\<lparr>showAiModal := False, aiPrompt := [], aiPath := [],
                                     aiResult := None\<rparr>;
                          (st4, w2) = fetchRootData rt srv st3 w1
                      in (st4\<lparr>loading := False\<rparr>, w2))
                 | Inl e \<Rightarrow>
                     ((notify (''Error executing plan: '' @ errMessage e) ''error'' st1)
                        \<lparr>loading := False\<rparr>, w1))))"

section \<open>Tree nodes\<close>

definition inferEdit :: "runtime \<Rightarrow> string \<Rightarrow> jsval" where
  \<comment> \<open>the smart parsing of \<open>handleSave\<close>\<close>
  "inferEdit rt editValue =
     (if editValue = ''true'' then JBool True
      else if editValue = ''false'' then JBool False
      else if editValue = ''null'' then JNull
      else if \<not> isNaN (Number rt editValue) \<and> trim editValue \<noteq> [] then
        JNum (Number rt editValue)
      else (case JSON_parse rt editValue of
              Some parsed \<Rightarrow> parsed
            | None \<Rightarrow> JStr editValue))"

definition inferEditSpec :: "runtime \<Rightarrow> string \<Rightarrow> jsval" where
  \<comment> \<open>the precedence in the words of the specification, for comparison with \<open>inferEdit\<close>:
      \<open>true\<close>/\<open>false\<close>, then \<open>null\<close>, then a text parseable as a finite number (a
      blank text is not), otherwise the structured parse with the raw string as fallback\<close>
  "inferEditSpec rt raw =
     (if raw = ''true'' then JBool True
      else if raw = ''false'' then JBool False
      else if raw = ''null'' then JNull
      else if isFinite (Number rt raw) \<and> trim raw \<noteq> [] then JNum (Number rt raw)
      else (case JSON_parse rt raw of
              Some parsed \<Rightarrow> parsed
            | None \<Rightarrow> JStr raw))"

definition inferChild :: "runtime \<Rightarrow> string \<Rightarrow> jsval" where
  \<comment> \<open>the value parsing of \<open>handleAddChild\<close>\<close>
  "inferChild rt newValue =
     (let parsedValue =
            (if newValue = ''true'' then JBool True
             else if newValue = ''false'' then JBool False
             else if \<not> isNaN (Number rt newValue) \<and> trim newValue \<noteq> [] then
               JNum (Number rt newValue)
             else JStr newValue)
      in if startsWith ''{'' newValue \<or> startsWith ''['' newValue then
           (case JSON_parse rt newValue of
              Some parsed \<Rightarrow> parsed
            | None \<Rightarrow> parsedValue)
         else parsedValue)"

record NodeProps =
  path :: string
  name :: string
  val :: jsval
  dbUrl :: string
  depth :: nat

record node =
  expanded :: bool
  isEditing :: bool
  isAdding :: bool
  newKey :: string
  newValue :: string
  editValue :: string
  busy :: bool

definition initialNode :: "NodeProps \<Rightarrow> node" where
  \<comment> \<open>the \<open>useState\<close> initial values; \<open>busy\<close> is the node's \<open>loading\<close>, and the
      hover and copied flags, which no handler below reads, are left out\<close>
  "initialNode p =
     \<lparr>expanded = depth p < 1, isEditing = False, isAdding = False, newKey = [],
      newValue = [], editValue = [], busy = False\<rparr>"

definition displayPath :: "NodeProps \<Rightarrow> string" where
  "displayPath p = (if path p \<noteq> [] then path p @ ''/'' @ name p else name p)"

definition hasToggle :: "NodeProps \<Rightarrow> bool" where
  \<comment> \<open>the toggle button is rendered for \<open>isObject\<close> only\<close>
  "hasToggle p \<longleftrightarrow> isObject (val p)"

definition showsChildren :: "NodeProps \<Rightarrow> node \<Rightarrow> bool" where
  \<comment> \<open>\<open>isObject && expanded && value\<close>\<close>
  "showsChildren p n \<longleftrightarrow> isObject (val p) \<and> expanded n \<and> truthy (val p)"

definition entries :: "jsval \<Rightarrow> (string \<times> jsval) list" where
  \<comment> \<open>\<open>Object.entries\<close> of an object or an array: the entries in enumeration order,
      which is the order an object's list is kept in\<close>
  "entries v =
     (case v of
        JObj kvs \<Rightarrow> kvs
      | JArr xs \<Rightarrow> zip (map showNat [0..<length xs]) xs
      | _ \<Rightarrow> [])"

definition childNodes :: "NodeProps \<Rightarrow> node \<Rightarrow> NodeProps list" where
  \<comment> \<open>the props of the child nodes a node renders\<close>
  "childNodes p n =
     (if showsChildren p n
      then map (\<lambda>(childKey, childValue).
                  \<lparr>path = displayPath p, name = childKey, val = childValue,
                   dbUrl = dbUrl p, depth = depth p + 1\<rparr>) (entries (val p))
      else [])"

definition handleSave :: "runtime \<Rightarrow> server \<Rightarrow> NodeProps \<Rightarrow> node \<Rightarrow> world \<Rightarrow> node \<times> world" where
  "handleSave rt srv p n w =
     (let parsedValue = inferEdit rt (editValue n);
          (r, w') = writeData srv (dbUrl p) (displayPath p) parsedValue w
      in (case r of
            Inr u \<Rightarrow> (n\<lparr>isEditing := False, busy := False\<rparr>,
                       w'\<lparr>refreshes := refreshes w' + 1\<rparr>)
          | Inl e \<Rightarrow> (n\<lparr>busy := False\<rparr>,
                       w'\<lparr>alerts := alerts w' @ [''Failed to save data. Check your format.'']\<rparr>)))"

definition handleAddChild :: "runtime \<Rightarrow> server \<Rightarrow> NodeProps \<Rightarrow> node \<Rightarrow> world \<Rightarrow> node \<times> world" where
  "handleAddChild rt srv p n w =
     (if trim (newKey n) = [] then (n, w)
      else
        (let childPath = (if displayPath p \<noteq> [] then displayPath p @ ''/'' @ newKey n
                          else newKey n);
             parsedValue = inferChild rt (newValue n);
             (r, w') = writeData srv (dbUrl p) childPath parsedValue w
         in (case r of
               Inr u \<Rightarrow> (n\<lparr>isAdding := False, newKey := [], newValue := [], expanded := True,
                            busy := False\<rparr>,
                          w'\<lparr>refreshes := refreshes w' + 1\<rparr>)
             | Inl e \<Rightarrow> (n\<lparr>busy := False\<rparr>,
                          w'\<lparr>alerts := alerts w' @ [''Failed to add data.'']\<rparr>))))"

section \<open>Auxiliary notions for the proofs\<close>

definition wsEdge :: "char \<Rightarrow> bool" where
  \<comment> \<open>a byte that begins or ends the encoding of a white-space character\<close>
  "wsEdge c \<longleftrightarrow> c \<in> set (map hd ws_seqs) \<or> c \<in> set (map last ws_seqs)"

section \<open>Stores and runtimes for evaluation\<close>

definition replyWith :: "response \<Rightarrow> server" where
  \<comment> \<open>a store that answers every request with the same response\<close>
  "replyWith res hist rq = Resolved res"

definition emptyWorld :: world where
  "emptyWorld = \<lparr>requests = [], alerts = [], refreshes = 0\<rparr>"

definition tableRuntime :: "(string \<times> jsnum) list \<Rightarrow> (string \<times> jsval) list \<Rightarrow> runtime" where
  \<comment> \<open>built-ins given by finite tables: \<open>Number\<close> is NaN and \<open>JSON.parse\<close> throws
      wherever the tables say nothing\<close>
  "tableRuntime nums vals =
     \<lparr>Number = (\<lambda>s. case map_of nums s of None \<Rightarrow> NaN | Some n \<Rightarrow> n),
      JSON_parse = map_of vals,
      JSON_stringify = (\<lambda>v. []),
      typeErrorText = (\<lambda>v. ''TypeError'')\<rparr>"

definition okResponse :: "jsval \<Rightarrow> response" where
  "okResponse v = \<lparr>status = 200, statusText = ''OK'', json = Inr v\<rparr>"

definition deleteDenied :: server where
  \<comment> \<open>a store that refuses every DELETE with 403 and accepts everything else\<close>
  "deleteDenied hist rq =
     (if httpMethod rq = ''DELETE''
      then Resolved \<lparr>status = 403, statusText = ''Forbidden'', json = Inr JNull\<rparr>
      else Resolved (okResponse JNull))"

definition connectedApp :: "string \<Rightarrow> AIResponse option \<Rightarrow> app" where
  \<comment> \<open>the application connected to a database, the AI dialog open on a proposed plan\<close>
  "connectedApp u plan =
     \<lparr>dbInfo = \<lparr>url = u, connected = True\<rparr>, appData = JNull, loading = False,
      notifications = [], viewMode = Tree, rawJsonInput = [], showAiModal = True,
      aiPrompt = ''tidy up'', aiPath = [], aiResult = plan\<rparr>"

definition deleteUser :: jsval where
  \<comment> \<open>the action \<open>{ "type": "DELETE", "path": "users/1" }\<close>\<close>
  "deleteUser = JObj [(''type'', JStr ''DELETE''), (''path'', JStr ''users/1'')]"

definition setTheme :: jsval where
  \<comment> \<open>the action \<open>{ "type": "SET", "path": "settings/theme", "data": "dark" }\<close>\<close>
  "setTheme = JObj [(''type'', JStr ''SET''), (''path'', JStr ''settings/theme''),
                    (''data'', JStr ''dark'')]"

definition moveUser :: jsval where
  \<comment> \<open>the action \<open>{ "type": "MOVE", "path": "users/1", "data": "users/2" }\<close>\<close>
  "moveUser = JObj [(''type'', JStr ''MOVE''), (''path'', JStr ''users/1''),
                    (''data'', JStr ''users/2'')]"

section \<open>URL normalization\<close>


lemma dropSeqs_fixed:
  assumes "\<forall>w\<in>set ws. w \<noteq> [] \<longrightarrow> hd w \<noteq> c"
  shows "dropSeqs ws (c # s) = c # s"
proof -
  have "find (\<lambda>w. w \<noteq> [] \<and> startsWith w (c # s)) ws = None"
    unfolding find_None_iff
  proof (intro notI, elim exE conjE)
    fix w assume w: "w \<in> set ws" "w \<noteq> []" "startsWith w (c # s)"
    from w(2) obtain a v where "w = a # v" by (cases w) auto
    with w(3) have "a = c" by (simp add: startsWith_def)
    with \<open>w = a # v\<close> w(1) assms show False by auto
  qed
  then show ?thesis by (simp add: dropSeqs.simps)
qed

lemma dropSeqs_Nil: "dropSeqs ws [] = []"
proof -
  have "find (\<lambda>w. w \<noteq> [] \<and> startsWith w []) ws = None"
    by (auto simp: find_None_iff startsWith_def)
  then show ?thesis by (simp add: dropSeqs.simps)
qed

lemma trim_fixed:
  assumes "s \<noteq> []" "\<not> wsEdge (hd s)" "\<not> wsEdge (last s)"
  shows "trim s = s"
proof -
  obtain c t where s: "s = c # t" using assms(1) by (cases s) auto
  have 1: "dropSeqs ws_seqs s = s"
    unfolding s using assms(2) by (intro dropSeqs_fixed) (auto simp: s wsEdge_def)
  obtain d u where r: "rev s = d # u" using assms(1) by (cases "rev s") auto
  then have d: "d = last s" using assms(1) by (metis last_rev list.sel(1) rev_rev_ident hd_rev)
  have "\<forall>w\<in>set (map rev ws_seqs). w \<noteq> [] \<longrightarrow> hd w \<noteq> d"
    using assms(3) unfolding d wsEdge_def by (auto simp: hd_rev) (metis imageI)
  then have 2: "dropSeqs (map rev ws_seqs) (rev s) = rev s"
    unfolding r by (rule dropSeqs_fixed)
  show ?thesis by (simp add: trim_def 1 2)
qed

lemma isIdChar_not_wsEdge: "isIdChar c \<Longrightarrow> \<not> wsEdge c"
  by (auto simp: isIdChar_def wsEdge_def ws_seqs_def)


lemma endsWith_single: "endsWith [c] s \<longleftrightarrow> s \<noteq> [] \<and> last s = c"
proof (cases "s = []")
  case True
  then show ?thesis by (simp add: endsWith_def)
next
  case False
  then have "s = butlast s @ [last s]" by simp
  then obtain t where s: "s = t @ [last s]" ..
  have "endsWith [c] (t @ [last s]) \<longleftrightarrow> last s = c"
    by (simp add: endsWith_def)
  with s False show ?thesis by simp
qed

lemma endsWith_append:
  "length p \<le> length b \<Longrightarrow> endsWith p (a @ b) = endsWith p b"
  by (simp add: endsWith_def)

lemma endsWith_set: "endsWith p s \<Longrightarrow> set p \<subseteq> set s"
  unfolding endsWith_def by (metis set_drop_subset)

lemma stripTrailingSlashes_id:
  assumes "\<not> endsWith ''/'' s"
  shows "stripTrailingSlashes s = s"
proof (cases "s = []")
  case True
  then show ?thesis by (simp add: stripTrailingSlashes_def)
next
  case False
  with assms have l: "last s \<noteq> CHR ''/''" by (simp add: endsWith_single)
  from False have "rev s = rev (butlast s @ [last s])" by simp
  then have "rev s = last s # rev (butlast s)" by (simp only: rev_append rev.simps append.simps)
  then have "dropWhile (\<lambda>c. c = CHR ''/'') (rev s) = rev s"
    using l by (simp only: dropWhile.simps if_False)
  then show ?thesis by (simp add: stripTrailingSlashes_def)
qed

lemma startsWith_prefix: "startsWith p (p @ t)"
  by (simp add: startsWith_def)

lemma cleanUrl_scheme:
  "startsWith ''http://'' (cleanUrl x) \<or> startsWith ''https://'' (cleanUrl x)"
proof -
  define u where "u = stripJsonSuffix (stripTrailingSlashes (trim x))"
  have c: "cleanUrl x =
      (if isProjectId u then ''https://'' @ u @ ''.firebaseio.com''
       else if \<not> startsWith ''http://'' u \<and> \<not> startsWith ''https://'' u
            then ''https://'' @ u
       else u)"
    by (simp only: cleanUrl_def Let_def u_def)
  show ?thesis
  proof (cases "isProjectId u")
    case True
    then have "cleanUrl x = ''https://'' @ u @ ''.firebaseio.com''"
      by (simp only: c if_True simp_thms)
    then show ?thesis by (simp only: startsWith_prefix simp_thms)
  next
    case False
    show ?thesis
    proof (cases "\<not> startsWith ''http://'' u \<and> \<not> startsWith ''https://'' u")
      case True
      with False have "cleanUrl x = ''https://'' @ u"
        by (simp only: c if_True if_False simp_thms)
      then show ?thesis by (simp only: startsWith_prefix simp_thms)
    next
      case nopre: False
      with False have "cleanUrl x = u"
        by (simp only: c if_False simp_thms)
      with nopre show ?thesis by blast
    qed
  qed
qed

lemma scheme_not_projectId:
  assumes "startsWith ''http://'' r \<or> startsWith ''https://'' r"
  shows "\<not> isProjectId r"
proof -
  have "CHR '':'' \<in> set r"
    using assms
  proof
    assume "startsWith ''http://'' r"
    then have "take (length ''http://'') r = ''http://''" by (simp only: startsWith_def)
    then have "CHR '':'' \<in> set (take (length ''http://'') r)" by (simp only:) simp
    then show ?thesis by (rule in_set_takeD)
  next
    assume "startsWith ''https://'' r"
    then have "take (length ''https://'') r = ''https://''" by (simp only: startsWith_def)
    then have "CHR '':'' \<in> set (take (length ''https://'') r)" by (simp only:) simp
    then show ?thesis by (rule in_set_takeD)
  qed
  moreover have "\<not> isIdChar CHR '':''" by (simp add: isIdChar_def)
  ultimately show ?thesis
    unfolding isProjectId_def list_all_iff by blast
qed

lemma cleanUrl_fixed:
  assumes "trim (cleanUrl x) = cleanUrl x"
    and "\<not> endsWith ''/'' (cleanUrl x)"
    and "\<not> endsWith ''.json'' (cleanUrl x)"
  shows "cleanUrl (cleanUrl x) = cleanUrl x"
proof -
  define r where "r = cleanUrl x"
  have 0: "trim r = r" using assms(1) by (simp add: r_def)
  have 1: "stripTrailingSlashes r = r"
    using assms(2) unfolding r_def by (rule stripTrailingSlashes_id)
  have 2: "stripJsonSuffix r = r" using assms(3) by (simp add: stripJsonSuffix_def r_def)
  have s: "startsWith ''http://'' r \<or> startsWith ''https://'' r"
    unfolding r_def by (rule cleanUrl_scheme)
  then have 3: "\<not> isProjectId r" by (rule scheme_not_projectId)
  have "cleanUrl r = r"
    unfolding cleanUrl_def Let_def 0 1 2 using 3 s by auto
  then show ?thesis by (simp add: r_def)
qed

lemma projectId_clean:
  assumes "isProjectId x"
  shows "cleanUrl x = ''https://'' @ x @ ''.firebaseio.com''"
proof -
  from assms have ne: "x \<noteq> []" and all: "\<forall>c\<in>set x. isIdChar c"
    by (simp_all add: isProjectId_def list_all_iff)
  from ne all have h: "isIdChar (hd x)" and l: "isIdChar (last x)" by simp_all
  have 1: "trim x = x"
  proof (rule trim_fixed)
    show "x \<noteq> []" by (rule ne)
    show "\<not> wsEdge (hd x)" using h by (rule isIdChar_not_wsEdge)
    show "\<not> wsEdge (last x)" using l by (rule isIdChar_not_wsEdge)
  qed
  have nslash: "\<not> isIdChar CHR ''/''" by (simp add: isIdChar_def)
  have ndot: "\<not> isIdChar CHR ''.''" by (simp add: isIdChar_def)
  from l nslash have "last x \<noteq> CHR ''/''" by metis
  then have "\<not> endsWith ''/'' x" by (simp add: endsWith_single)
  then have 2: "stripTrailingSlashes x = x" by (rule stripTrailingSlashes_id)
  have "\<not> endsWith ''.json'' x"
  proof
    assume "endsWith ''.json'' x"
    then have "set ''.json'' \<subseteq> set x" by (rule endsWith_set)
    then have "CHR ''.'' \<in> set x" by simp
    with all ndot show False by blast
  qed
  then have 3: "stripJsonSuffix x = x" by (simp add: stripJsonSuffix_def)
  show ?thesis
    by (simp only: cleanUrl_def Let_def 1 2 3 assms if_True)
qed

lemma projectId_idempotent:
  assumes "isProjectId x"
  shows "cleanUrl (cleanUrl x) = cleanUrl x"
proof -
  let ?r = "''https://'' @ x @ ''.firebaseio.com''"
  have r: "cleanUrl x = ?r" using assms by (rule projectId_clean)
  have l: "last ?r = CHR ''m''" by simp
  have "trim ?r = ?r"
    by (rule trim_fixed) (simp_all add: wsEdge_def ws_seqs_def)
  moreover have "\<not> endsWith ''/'' ?r"
    unfolding endsWith_single using l by simp
  moreover have "\<not> endsWith ''.json'' ?r"
  proof -
    have "?r = (''https://'' @ x @ ''.firebasei'') @ ''o.com''" by simp
    then have "endsWith ''.json'' ?r = endsWith ''.json'' ''o.com''"
      by (metis endsWith_append length_Cons order_refl)
    then show ?thesis by (simp add: endsWith_def)
  qed
  ultimately show ?thesis
    using cleanUrl_fixed [of x] unfolding r by blast
qed

text \<open>
  C3 (as amended). Normalizing twice gives the same URL as normalizing once whenever the
  once-normalized URL has no white space at its ends and ends neither in \<open>/\<close> nor in
  \<open>.json\<close>. Every bare identifier of letters, digits and hyphens normalizes to
  \<open>https://<identifier>.firebaseio.com\<close>, and there normalization is idempotent.
\<close>

theorem cleanUrl_idempotent_on_stable_forms:
  "(trim (cleanUrl x) = cleanUrl x \<and> \<not> endsWith ''/'' (cleanUrl x)
      \<and> \<not> endsWith ''.json'' (cleanUrl x)
      \<longrightarrow> cleanUrl (cleanUrl x) = cleanUrl x)
   \<and> (isProjectId x
      \<longrightarrow> cleanUrl x = ''https://'' @ x @ ''.firebaseio.com''
          \<and> cleanUrl (cleanUrl x) = cleanUrl x)"
  using cleanUrl_fixed projectId_clean projectId_idempotent by blast

theorem cleanUrl_idempotent_on_stable_forms_witness:
  "trim (cleanUrl ''my-project'') = cleanUrl ''my-project''
   \<and> \<not> endsWith ''/'' (cleanUrl ''my-project'')
   \<and> \<not> endsWith ''.json'' (cleanUrl ''my-project'')
   \<and> isProjectId ''my-project''
   \<and> cleanUrl ''my-project'' = ''https://'' @ ''my-project'' @ ''.firebaseio.com''
   \<and> cleanUrl (cleanUrl ''my-project'') = cleanUrl ''my-project''"
proof -
  have 1: "trim (cleanUrl ''my-project'') = cleanUrl ''my-project''" by code_simp
  have 2: "\<not> endsWith ''/'' (cleanUrl ''my-project'')" by code_simp
  have 3: "\<not> endsWith ''.json'' (cleanUrl ''my-project'')" by code_simp
  have 4: "isProjectId ''my-project''" by code_simp
  from cleanUrl_idempotent_on_stable_forms [of "''my-project''"] 1 2 3 4
  show ?thesis by blast
qed

text \<open>
  C3 as stated fails: the REST address of a database root, \<open>.../.json\<close>, normalizes to a
  URL with a trailing slash, which a second normalization removes.
\<close>

theorem cleanUrl_not_idempotent:
  "cleanUrl (cleanUrl ''https://my-project.firebaseio.com/.json'')
     \<noteq> cleanUrl ''https://my-project.firebaseio.com/.json''"
  by code_simp

section \<open>Endpoint construction\<close>

lemma splitOn_Nil: "splitOn sep [] = [[]]"
  by (simp add: splitOn_def)

lemma splitOn_Cons:
  "splitOn sep (c # s) =
     (if c = sep then [] # splitOn sep s
      else (case splitOn sep s of [] \<Rightarrow> [[c]] | x # xs \<Rightarrow> (c # x) # xs))"
  by (simp add: splitOn_def)

lemma splitOn_nonempty: "splitOn sep s \<noteq> []"
  by (cases s) (simp_all add: splitOn_Nil splitOn_Cons split: list.splits)

lemma splitOn_no_sep: "sep \<notin> set x \<Longrightarrow> splitOn sep x = [x]"
  by (induction x) (auto simp: splitOn_Nil splitOn_Cons)

lemma splitOn_append_sep:
  "sep \<notin> set x \<Longrightarrow> splitOn sep (x @ sep # r) = x # splitOn sep r"
  by (induction x) (auto simp: splitOn_Cons)

lemma splitOn_join:
  assumes "xs \<noteq> []" and "\<forall>x\<in>set xs. sep \<notin> set x"
  shows "splitOn sep (join [sep] xs) = xs"
  using assms
proof (induction "[sep]" xs rule: join.induct)
  case 1
  then show ?case by simp
next
  case (2 x)
  then show ?case by (simp add: splitOn_no_sep)
next
  case (3 x y ys)
  then show ?case by (simp add: splitOn_append_sep)
qed

lemma hexDigit_mem: "hexDigit n \<in> set ''0123456789ABCDEF''"
  unfolding hexDigit_def by (rule nth_mem) simp

lemma hexDigit_not_slash: "hexDigit n \<noteq> CHR ''/''"
  using hexDigit_mem [of n] by auto

lemma unreserved_not_slash: "uriUnreserved c \<Longrightarrow> c \<noteq> CHR ''/''"
  by (auto simp: uriUnreserved_def)

lemma encodeByte_no_slash: "CHR ''/'' \<notin> set (encodeByte c)"
proof (cases "uriUnreserved c")
  case True
  then show ?thesis
    using unreserved_not_slash [of c] by (auto simp: encodeByte_def)
next
  case False
  then show ?thesis
    by (simp add: encodeByte_def hexDigit_not_slash [THEN not_sym])
qed

lemma encode_no_slash: "CHR ''/'' \<notin> set (encodeURIComponent s)"
  by (simp add: encodeURIComponent_def encodeByte_no_slash)


lemma hexDigit_inj:
  assumes "m < 16" "n < 16" "hexDigit m = hexDigit n"
  shows "m = n"
proof -
  have d: "distinct ''0123456789ABCDEF''" by simp
  have l: "length ''0123456789ABCDEF'' = 16" by simp
  from assms(3) have "''0123456789ABCDEF'' ! m = ''0123456789ABCDEF'' ! n"
    using assms(1,2) by (simp add: hexDigit_def)
  with d l assms(1,2) show ?thesis
    by (metis nth_eq_iff_index_eq)
qed

lemma encodeByte_plain: "uriUnreserved c \<Longrightarrow> encodeByte c = [c]"
  by (simp add: encodeByte_def)

lemma encodeByte_escaped:
  "\<not> uriUnreserved c \<Longrightarrow>
     encodeByte c = [CHR ''%'', hexDigit (of_char c div 16), hexDigit (of_char c mod 16)]"
  by (simp add: encodeByte_def)

lemma percent_reserved: "\<not> uriUnreserved CHR ''%''"
  by (simp add: uriUnreserved_def)

lemma nat_of_nibbles:
  fixes m n :: nat
  assumes "m div 16 = n div 16" and "m mod 16 = n mod 16"
  shows "m = n"
  using assms by (metis div_mult_mod_eq)

lemma hi_nibble_bound:
  fixes m :: nat
  shows "m < 256 \<Longrightarrow> m div 16 < 16"
  by presburger

lemma of_char_bound: "(of_char c :: nat) < 256"
proof -
  have "(of_char c :: nat) mod 256 < 256" by (rule mod_less_divisor) simp
  then show ?thesis by (simp only: of_char_mod_256)
qed

lemma byte_of_nibbles:
  assumes "hexDigit (of_char c div 16) = hexDigit (of_char d div 16)"
    and "hexDigit (of_char c mod 16) = hexDigit (of_char d mod 16)"
  shows "c = d"
proof -
  define m :: nat where "m = of_char c"
  define n :: nat where "n = of_char d"
  have bm: "m < 256" and bn: "n < 256" by (simp_all only: m_def n_def of_char_bound)
  have h1: "hexDigit (m div 16) = hexDigit (n div 16)"
    and h2: "hexDigit (m mod 16) = hexDigit (n mod 16)"
    using assms by (simp_all only: m_def n_def)
  have "m div 16 < 16" using bm by (rule hi_nibble_bound)
  moreover have "n div 16 < 16" using bn by (rule hi_nibble_bound)
  ultimately have 1: "m div 16 = n div 16" using h1 by (rule hexDigit_inj)
  have "m mod 16 < 16" by (rule mod_less_divisor) simp
  moreover have "n mod 16 < 16" by (rule mod_less_divisor) simp
  ultimately have 2: "m mod 16 = n mod 16" using h2 by (rule hexDigit_inj)
  from 1 2 have "m = n" by (rule nat_of_nibbles)
  then have "(of_char c :: nat) = of_char d" by (simp only: m_def n_def)
  then show "c = d" by (rule of_char_eqI)
qed

lemma escaped_eq:
  "[p, a1, a2] @ u = [p, b1, b2] @ v \<Longrightarrow> a1 = b1 \<and> a2 = b2 \<and> u = v"
  by simp

lemma plain_escaped_eq: "[c] @ u = [p, b1, b2] @ v \<Longrightarrow> c = p"
  by simp

lemma encodeByte_inj_append:
  assumes "encodeByte c @ u = encodeByte d @ v"
  shows "c = d \<and> u = v"
proof (cases "uriUnreserved c")
  case c: True
  then have ec: "encodeByte c = [c]" by (rule encodeByte_plain)
  show ?thesis
  proof (cases "uriUnreserved d")
    case True
    then have ed: "encodeByte d = [d]" by (rule encodeByte_plain)
    from assms have "[c] @ u = [d] @ v" by (simp only: ec ed)
    then show ?thesis by simp
  next
    case False
    then have ed: "encodeByte d = [CHR ''%'', hexDigit (of_char d div 16), hexDigit (of_char d mod 16)]"
      by (rule encodeByte_escaped)
    from assms have "[c] @ u = [CHR ''%'', hexDigit (of_char d div 16), hexDigit (of_char d mod 16)] @ v"
      by (simp only: ec ed)
    then have "c = CHR ''%''" by (rule plain_escaped_eq)
    with c percent_reserved show ?thesis by simp
  qed
next
  case c: False
  then have ec: "encodeByte c = [CHR ''%'', hexDigit (of_char c div 16), hexDigit (of_char c mod 16)]"
    by (rule encodeByte_escaped)
  show ?thesis
  proof (cases "uriUnreserved d")
    case True
    then have ed: "encodeByte d = [d]" by (rule encodeByte_plain)
    from assms have "[d] @ v = [CHR ''%'', hexDigit (of_char c div 16), hexDigit (of_char c mod 16)] @ u"
      by (simp only: ec ed)
    then have "d = CHR ''%''" by (rule plain_escaped_eq)
    with True percent_reserved show ?thesis by simp
  next
    case False
    then have ed: "encodeByte d = [CHR ''%'', hexDigit (of_char d div 16), hexDigit (of_char d mod 16)]"
      by (rule encodeByte_escaped)
    from assms have "[CHR ''%'', hexDigit (of_char c div 16), hexDigit (of_char c mod 16)] @ u
        = [CHR ''%'', hexDigit (of_char d div 16), hexDigit (of_char d mod 16)] @ v"
      by (simp only: ec ed)
    then have e: "hexDigit (of_char c div 16) = hexDigit (of_char d div 16)
        \<and> hexDigit (of_char c mod 16) = hexDigit (of_char d mod 16) \<and> u = v"
      by (rule escaped_eq)
    then have e1: "hexDigit (of_char c div 16) = hexDigit (of_char d div 16)"
      and e2: "hexDigit (of_char c mod 16) = hexDigit (of_char d mod 16)"
      and e3: "u = v"
      by blast+
    from e1 e2 have "c = d" by (rule byte_of_nibbles)
    with e3 show ?thesis by blast
  qed
qed

lemma encodeByte_nonempty: "encodeByte c \<noteq> []"
  by (simp add: encodeByte_def)

lemma encode_Cons: "encodeURIComponent (c # s) = encodeByte c @ encodeURIComponent s"
  by (simp add: encodeURIComponent_def)

lemma encode_inj: "encodeURIComponent a = encodeURIComponent b \<Longrightarrow> a = b"
proof (induction a arbitrary: b)
  case Nil
  then show ?case
    by (cases b) (simp_all add: encodeURIComponent_def encodeByte_nonempty)
next
  case (Cons c a)
  show ?case
  proof (cases b)
    case Nil
    with Cons.prems show ?thesis
      by (simp add: encodeURIComponent_def encodeByte_nonempty)
  next
    case (Cons d b')
    with Cons.prems have "encodeByte c @ encodeURIComponent a = encodeByte d @ encodeURIComponent b'"
      by (simp only: encode_Cons)
    then have "c = d \<and> encodeURIComponent a = encodeURIComponent b'"
      by (rule encodeByte_inj_append)
    with Cons.IH Cons show ?thesis by blast
  qed
qed

lemma map_encode_inj: "map encodeURIComponent xs = map encodeURIComponent ys \<Longrightarrow> xs = ys"
  using encode_inj by (metis inj_onI inj_map_eq_map)

lemma splitOn_append_any:
  "splitOn sep (x @ sep # r) = splitOn sep x @ splitOn sep r"
proof (induction x)
  case Nil
  then show ?case by (simp add: splitOn_Nil splitOn_Cons)
next
  case (Cons c x)
  obtain y ys where y: "splitOn sep x = y # ys"
    using splitOn_nonempty [of sep x] by (cases "splitOn sep x") auto
  show ?case
  proof (cases "c = sep")
    case True
    then show ?thesis using Cons.IH by (simp add: splitOn_Cons)
  next
    case False
    then show ?thesis using Cons.IH y by (simp add: splitOn_Cons)
  qed
qed

lemma splitOn_pieces: "x \<in> set (splitOn sep s) \<Longrightarrow> sep \<notin> set x"
proof (induction s arbitrary: x)
  case Nil
  then show ?case by (simp add: splitOn_Nil)
next
  case (Cons c s)
  obtain y ys where y: "splitOn sep s = y # ys"
    using splitOn_nonempty [of sep s] by (cases "splitOn sep s") auto
  show ?case
  proof (cases "c = sep")
    case True
    with Cons show ?thesis by (auto simp: splitOn_Cons)
  next
    case False
    have "sep \<notin> set y" and "\<And>z. z \<in> set ys \<Longrightarrow> sep \<notin> set z"
      using Cons.IH y by auto
    with False Cons.prems y show ?thesis by (auto simp: splitOn_Cons)
  qed
qed

text \<open>
  C6 (as amended). The empty path gives the root resource \<open><base>/.json\<close>. For a non-empty
  path the endpoint is the normalized base, \<open>/\<close>, the pieces between the slashes of the path
  without its leading slashes, each percent-encoded on its own and joined by \<open>/\<close>, and
  \<open>.json\<close>. Neither a piece nor its encoding contains \<open>/\<close>, so splitting the encoded path
  at \<open>/\<close> gives back exactly the encoded pieces, and these determine the pieces. A \<open>/\<close>
  inside a key is a separator like any other: the pieces of \<open>parent/key\<close> are the pieces
  of the parent followed by the pieces of the key.
\<close>

theorem buildEndpoint_keeps_segments:
  "buildEndpoint baseUrl [] = cleanUrl baseUrl @ ''/.json''
   \<and> (pth \<noteq> [] \<longrightarrow>
        (let segments = splitOn CHR ''/'' (dropWhile (\<lambda>c. c = CHR ''/'') pth);
             encoded = map encodeURIComponent segments
         in buildEndpoint baseUrl pth = cleanUrl baseUrl @ ''/'' @ join ''/'' encoded @ ''.json''
            \<and> (\<forall>s\<in>set segments. CHR ''/'' \<notin> set s)
            \<and> (\<forall>e\<in>set encoded. CHR ''/'' \<notin> set e)
            \<and> splitOn CHR ''/'' (join ''/'' encoded) = encoded
            \<and> (\<forall>other. map encodeURIComponent other = encoded \<longrightarrow> other = segments)))
   \<and> splitOn CHR ''/'' (parent @ ''/'' @ key) = splitOn CHR ''/'' parent @ splitOn CHR ''/'' key"
proof (intro conjI impI)
  show "buildEndpoint baseUrl [] = cleanUrl baseUrl @ ''/.json''"
    by (simp add: buildEndpoint_def)
next
  show "splitOn CHR ''/'' (parent @ ''/'' @ key) = splitOn CHR ''/'' parent @ splitOn CHR ''/'' key"
    using splitOn_append_any [of "CHR ''/''" parent key] by simp
next
  assume ne: "pth \<noteq> []"
  define segments where "segments = splitOn CHR ''/'' (dropWhile (\<lambda>c. c = CHR ''/'') pth)"
  define encoded where "encoded = map encodeURIComponent segments"
  have 1: "buildEndpoint baseUrl pth = cleanUrl baseUrl @ ''/'' @ join ''/'' encoded @ ''.json''"
    unfolding buildEndpoint_def Let_def encoded_def segments_def using ne by (simp only: if_False)
  have 0: "\<forall>s\<in>set segments. CHR ''/'' \<notin> set s"
    unfolding segments_def using splitOn_pieces by blast
  have 2: "\<forall>e\<in>set encoded. CHR ''/'' \<notin> set e"
    unfolding encoded_def using encode_no_slash by simp
  have "segments \<noteq> []" unfolding segments_def by (rule splitOn_nonempty)
  then have "encoded \<noteq> []" by (simp add: encoded_def)
  then have 3: "splitOn CHR ''/'' (join ''/'' encoded) = encoded"
    using 2 by (rule splitOn_join)
  have 4: "\<forall>other. map encodeURIComponent other = encoded \<longrightarrow> other = segments"
    unfolding encoded_def using map_encode_inj by blast
  from 1 0 2 3 4
  have "buildEndpoint baseUrl pth = cleanUrl baseUrl @ ''/'' @ join ''/'' encoded @ ''.json''
        \<and> (\<forall>s\<in>set segments. CHR ''/'' \<notin> set s)
        \<and> (\<forall>e\<in>set encoded. CHR ''/'' \<notin> set e)
        \<and> splitOn CHR ''/'' (join ''/'' encoded) = encoded
        \<and> (\<forall>other. map encodeURIComponent other = encoded \<longrightarrow> other = segments)"
    by (intro conjI)
  then show "let segments = splitOn CHR ''/'' (dropWhile (\<lambda>c. c = CHR ''/'') pth);
                 encoded = map encodeURIComponent segments
             in buildEndpoint baseUrl pth = cleanUrl baseUrl @ ''/'' @ join ''/'' encoded @ ''.json''
                \<and> (\<forall>s\<in>set segments. CHR ''/'' \<notin> set s)
                \<and> (\<forall>e\<in>set encoded. CHR ''/'' \<notin> set e)
                \<and> splitOn CHR ''/'' (join ''/'' encoded) = encoded
                \<and> (\<forall>other. map encodeURIComponent other = encoded \<longrightarrow> other = segments)"
    unfolding Let_def encoded_def segments_def .
qed

theorem buildEndpoint_keeps_segments_witness:
  "''/users/a?b'' \<noteq> []
   \<and> buildEndpoint ''my-project'' ''/users/a?b''
       = cleanUrl ''my-project'' @ ''/'' @ join ''/'' [''users'', ''a%3Fb''] @ ''.json''
   \<and> splitOn CHR ''/'' (join ''/'' [''users'', ''a%3Fb'']) = [''users'', ''a%3Fb'']
   \<and> splitOn CHR ''/'' (''users'' @ ''/'' @ ''a/b'') = splitOn CHR ''/'' ''users'' @ splitOn CHR ''/'' ''a/b''"
proof -
  have ne: "''/users/a?b'' \<noteq> []" by simp
  have s: "splitOn CHR ''/'' (dropWhile (\<lambda>c. c = CHR ''/'') ''/users/a?b'') = [''users'', ''a?b'']"
    by code_simp
  have e: "map encodeURIComponent [''users'', ''a?b''] = [''users'', ''a%3Fb'']"
    by code_simp
  from buildEndpoint_keeps_segments [of "''my-project''" "''/users/a?b''" "''users''" "''a/b''"] ne
  show ?thesis
    unfolding Let_def s e by blast
qed

text \<open>
  C6 as stated fails in its last part. A key that contains \<open>/\<close> is not kept in one
  segment: the key \<open>a/b\<close> under \<open>users\<close> gets the endpoint of the key \<open>b\<close> under
  \<open>users/a\<close>.
\<close>

theorem key_with_slash_is_split:
  "buildEndpoint ''my-project''
      (displayPath \<lparr>path = ''users'', name = ''a/b'', val = JNull, dbUrl = ''my-project'', depth = 1\<rparr>)
     = ''https://my-project.firebaseio.com/users/a/b.json''
   \<and> buildEndpoint ''my-project''
      (displayPath \<lparr>path = ''users/a'', name = ''b'', val = JNull, dbUrl = ''my-project'', depth = 2\<rparr>)
     = ''https://my-project.firebaseio.com/users/a/b.json''"
  by code_simp

section \<open>Status classification\<close>

lemma orElse_nonempty: "a \<noteq> [] \<Longrightarrow> orElse a b = a"
  by (simp add: orElse_def)

lemma probe_classification:
  assumes "srv (requests w) \<lparr>httpMethod = ''GET'', endpoint = cleanUrl u @ ''/.json?shallow=true'', body = None\<rparr> = Resolved res"
    and "\<not> ok res"
  shows "fst (checkConnection srv u w) =
     Inl (mkError
       (if status res = 401 then noEntry @ '' Permission Denied (401): Database rules prevent reading.''
        else if status res = 404 then crossMark @ '' Database Not Found (404): Check your Project ID.''
        else if status res = 400 then warningSign @ '' Bad Request (400): Invalid URL format.''
        else warningSign @ '' Connection Error: '' @ showNat (status res)))"
  using assms
  by (simp add: checkConnection_def fetch_def Let_def mkError_def startsWith_prefix)

lemma read_classification:
  assumes "srv (requests w) \<lparr>httpMethod = ''GET'', endpoint = buildEndpoint u p, body = None\<rparr> = Resolved res"
    and "\<not> ok res"
  shows "fst (readData srv u p w) =
     Inl (mkError (if status res = 401 then ''Permission Denied (401)''
                   else ''Failed to read data: '' @ statusText res))"
  using assms
  by (simp add: readData_def fetch_def Let_def mkError_def orElse_def)

lemma write_classification:
  assumes "srv (requests w) \<lparr>httpMethod = ''PUT'', endpoint = buildEndpoint u p, body = stringified d\<rparr> = Resolved res"
    and "\<not> ok res"
  shows "fst (writeData srv u p d w) =
     Inl (mkError (if status res = 401 then ''Permission Denied (401)''
                   else ''Failed to write data: '' @ statusText res))"
  using assms
  by (simp add: writeData_def fetch_def Let_def mkError_def orElse_def)

lemma update_classification:
  assumes "srv (requests w) \<lparr>httpMethod = ''PATCH'', endpoint = buildEndpoint u p, body = stringified d\<rparr> = Resolved res"
    and "\<not> ok res"
  shows "fst (updateData srv u p d w) =
     Inl (mkError (if status res = 401 then ''Permission Denied (401)''
                   else ''Failed to update data: '' @ statusText res))"
  using assms
  by (simp add: updateData_def fetch_def Let_def mkError_def orElse_def)

lemma delete_classification:
  assumes "srv (requests w) \<lparr>httpMethod = ''DELETE'', endpoint = buildEndpoint u p, body = None\<rparr> = Resolved res"
    and "\<not> ok res"
  shows "fst (deleteData srv u p w) =
     Inl (mkError (if status res = 401 then ''Permission Denied (401): Delete blocked.''
                   else ''Failed to delete data: '' @ statusText res))"
  using assms
  by (simp add: deleteData_def fetch_def Let_def mkError_def orElse_def)


text \<open>
  C7 (as amended). When the store answers with a non-2xx response, the probe raises the
  permission-denied error for 401, the not-found error for 404, the malformed-request error
  for 400, and for any other status a connection error that carries the status code. Read,
  write, merge and remove raise the permission-denied error for 401 and, for every other
  status (400 and 404 included), one generic failure that carries the response's status
  text, not its status code.
\<close>

theorem store_status_classification:
  assumes "\<And>rq. srv (requests w) rq = Resolved res" and "\<not> ok res"
  shows "fst (checkConnection srv u w) =
           Inl (mkError
             (if status res = 401 then noEntry @ '' Permission Denied (401): Database rules prevent reading.''
              else if status res = 404 then crossMark @ '' Database Not Found (404): Check your Project ID.''
              else if status res = 400 then warningSign @ '' Bad Request (400): Invalid URL format.''
              else warningSign @ '' Connection Error: '' @ showNat (status res)))
       \<and> fst (readData srv u p w) =
           Inl (mkError (if status res = 401 then ''Permission Denied (401)''
                         else ''Failed to read data: '' @ statusText res))
       \<and> fst (writeData srv u p d w) =
           Inl (mkError (if status res = 401 then ''Permission Denied (401)''
                         else ''Failed to write data: '' @ statusText res))
       \<and> fst (updateData srv u p d w) =
           Inl (mkError (if status res = 401 then ''Permission Denied (401)''
                         else ''Failed to update data: '' @ statusText res))
       \<and> fst (deleteData srv u p w) =
           Inl (mkError (if status res = 401 then ''Permission Denied (401): Delete blocked.''
                         else ''Failed to delete data: '' @ statusText res))"
  by (intro conjI probe_classification read_classification write_classification
        update_classification delete_classification assms)

theorem store_status_classification_witness:
  "(\<forall>rq. replyWith \<lparr>status = 404, statusText = ''Not Found'', json = Inr JNull\<rparr>
            (requests emptyWorld) rq
          = Resolved \<lparr>status = 404, statusText = ''Not Found'', json = Inr JNull\<rparr>)
   \<and> \<not> ok \<lparr>status = 404, statusText = ''Not Found'', json = Inr JNull\<rparr>
   \<and> fst (checkConnection (replyWith \<lparr>status = 404, statusText = ''Not Found'', json = Inr JNull\<rparr>)
             ''my-project'' emptyWorld)
       = Inl (mkError (crossMark @ '' Database Not Found (404): Check your Project ID.''))
   \<and> fst (readData (replyWith \<lparr>status = 404, statusText = ''Not Found'', json = Inr JNull\<rparr>)
             ''my-project'' ''users'' emptyWorld)
       = Inl (mkError ''Failed to read data: Not Found'')
   \<and> fst (deleteData (replyWith \<lparr>status = 404, statusText = ''Not Found'', json = Inr JNull\<rparr>)
             ''my-project'' ''users'' emptyWorld)
       = Inl (mkError ''Failed to delete data: Not Found'')"
proof -
  let ?r = "\<lparr>status = 404, statusText = ''Not Found'', json = Inr JNull\<rparr>"
  have h1: "\<And>rq. replyWith ?r (requests emptyWorld) rq = Resolved ?r"
    by (simp add: replyWith_def)
  have h2: "\<not> ok ?r" by (simp add: ok_def)
  from store_status_classification
         [where srv = "replyWith ?r" and w = emptyWorld and res = ?r
            and u = "''my-project''" and p = "''users''" and d = JNull, OF h1 h2]
  show ?thesis using h1 h2 by simp
qed

text \<open>
  C7 as stated fails for a read: a 400 answer and a 503 answer, both without status text
  (as over HTTP/2), raise the very same error, so 400 is not told apart and the generic
  failure does not carry the status.
\<close>

theorem read_error_ignores_status:
  "fst (readData (replyWith \<lparr>status = 400, statusText = [], json = Inr JNull\<rparr>)
          ''my-project'' ''users'' emptyWorld)
     = Inl (mkError ''Failed to read data: '')
   \<and> fst (readData (replyWith \<lparr>status = 503, statusText = [], json = Inr JNull\<rparr>)
          ''my-project'' ''users'' emptyWorld)
     = Inl (mkError ''Failed to read data: '')"
  by (simp add: readData_def fetch_def replyWith_def ok_def Let_def orElse_def mkError_def)


section \<open>Type inference of the node editor\<close>

lemma writeData_requests:
  "requests (snd (writeData srv u p d w)) =
     requests w @ [\<lparr>httpMethod = ''PUT'', endpoint = buildEndpoint u p, body = stringified d\<rparr>]"
  by (simp add: writeData_def fetch_def Let_def split: prod.splits)

lemma handleSave_requests:
  "requests (snd (handleSave rt srv p n w)) =
     requests w @ [\<lparr>httpMethod = ''PUT'', endpoint = buildEndpoint (dbUrl p) (displayPath p),
                    body = stringified (inferEdit rt (editValue n))\<rparr>]"
proof -
  obtain r w' where wd: "writeData srv (dbUrl p) (displayPath p) (inferEdit rt (editValue n)) w = (r, w')"
    by (cases "writeData srv (dbUrl p) (displayPath p) (inferEdit rt (editValue n)) w")
  then have "requests w' = requests w @ [\<lparr>httpMethod = ''PUT'', endpoint = buildEndpoint (dbUrl p) (displayPath p),
                    body = stringified (inferEdit rt (editValue n))\<rparr>]"
    using writeData_requests [of srv "dbUrl p" "displayPath p" "inferEdit rt (editValue n)" w] by simp
  then show ?thesis
    by (cases r) (simp_all add: handleSave_def Let_def wd)
qed

lemma inferEdit_agrees:
  "Number rt s \<noteq> PosInf \<Longrightarrow> Number rt s \<noteq> NegInf \<Longrightarrow> inferEdit rt s = inferEditSpec rt s"
  by (cases "Number rt s") (simp_all add: inferEdit_def inferEditSpec_def isNaN_def isFinite_def)

text \<open>
  C4, at the text \<open>Infinity\<close>. It is not parseable as a finite number and is not JSON, so
  by the stated precedence the raw string is sent. The code tests \<open>Number\<close> of the text
  for NaN only: the text becomes the number Infinity, which \<open>JSON.stringify\<close> writes as
  \<open>null\<close>, and the PUT at the node's path carries \<open>null\<close>.
\<close>

theorem infinity_edit_writes_null:
  "inferEditSpec (tableRuntime [(''Infinity'', PosInf)] []) ''Infinity'' = JStr ''Infinity''
   \<and> inferEdit (tableRuntime [(''Infinity'', PosInf)] []) ''Infinity'' = JNum PosInf
   \<and> requests (snd (handleSave (tableRuntime [(''Infinity'', PosInf)] []) (replyWith (okResponse JNull))
         \<lparr>path = ''settings'', name = ''limit'', val = JNum (Fin 10), dbUrl = ''my-project'', depth = 1\<rparr>
         \<lparr>expanded = False, isEditing = True, isAdding = False, newKey = [], newValue = [],
          editValue = ''Infinity'', busy = False\<rparr>
         emptyWorld))
     = [\<lparr>httpMethod = ''PUT'', endpoint = ''https://my-project.firebaseio.com/settings/limit.json'',
         body = Some JNull\<rparr>]"
  by code_simp

text \<open>
  C5, at the input \<open>null\<close>. Child insertion has no branch for the text \<open>null\<close>: it sends
  the string, where the inline edit of the same text sends the null value.
\<close>

theorem add_child_keeps_null_as_string:
  "inferChild (tableRuntime [] []) ''null'' = JStr ''null''
   \<and> inferEdit (tableRuntime [] []) ''null'' = JNull
   \<and> requests (snd (handleAddChild (tableRuntime [] []) (replyWith (okResponse JNull))
         \<lparr>path = [], name = ''users'', val = JObj [], dbUrl = ''my-project'', depth = 0\<rparr>
         \<lparr>expanded = True, isEditing = False, isAdding = True, newKey = ''nickname'',
          newValue = ''null'', editValue = [], busy = False\<rparr>
         emptyWorld))
     = [\<lparr>httpMethod = ''PUT'', endpoint = ''https://my-project.firebaseio.com/users/nickname.json'',
         body = Some (JStr ''null'')\<rparr>]"
  by code_simp

section \<open>Reading the generator's reply\<close>

lemma member_Some: "v \<noteq> JNull \<Longrightarrow> v \<noteq> JUndefined \<Longrightarrow> member v k = Some (field v k)"
  by (cases v) (simp_all add: field_def)

lemma includes_404: "\<not> includesStr ''404'' ''AI response was not valid JSON.''"
  by code_simp

lemma includes_NOT_FOUND: "\<not> includesStr ''NOT_FOUND'' ''AI response was not valid JSON.''"
  by code_simp

lemma generate_non_null:
  assumes "text \<noteq> []" "JSON_parse rt text = Some parsed"
    and "parsed \<noteq> JNull" "parsed \<noteq> JUndefined"
  shows "generateDataWithAI rt (Inr (Some text)) =
     Inr \<lparr>message = (if truthy (field parsed ''message'') then field parsed ''message''
                      else JStr ''Here is the plan.''),
          actions = (case field parsed ''actions'' of JArr xs \<Rightarrow> xs | _ \<Rightarrow> [])\<rparr>"
  using assms by (simp add: generateDataWithAI_def member_Some)

lemma generate_null:
  assumes "text \<noteq> []" "JSON_parse rt text = Some JNull"
  shows "generateDataWithAI rt (Inr (Some text)) =
     Inl (mkError ''AI Error: AI response was not valid JSON.'')"
  using assms includes_404 includes_NOT_FOUND
  by (simp add: generateDataWithAI_def mkError_def orElse_def)


text \<open>
  C8, at the reply \<open>null\<close>. The reply parses as JSON and holds no list of actions, so the
  plan with the empty action list and the default message is due. Reading \<open>message\<close> of
  \<open>null\<close> throws inside the \<open>try\<close> around the parse, and the caller receives the
  invalid-JSON error. The reply \<open>42\<close>, as little a plan as \<open>null\<close>, gets the empty plan.
\<close>

theorem null_reply_raises_where_others_default:
  "generateDataWithAI (tableRuntime [] [(''null'', JNull), (''42'', JNum (Fin 42))])
      (Inr (Some ''null''))
     = Inl (mkError ''AI Error: AI response was not valid JSON.'')
   \<and> generateDataWithAI (tableRuntime [] [(''null'', JNull), (''42'', JNum (Fin 42))])
      (Inr (Some ''42''))
     = Inr \<lparr>message = JStr ''Here is the plan.'', actions = []\<rparr>"
proof
  show "generateDataWithAI (tableRuntime [] [(''null'', JNull), (''42'', JNum (Fin 42))])
      (Inr (Some ''null''))
     = Inl (mkError ''AI Error: AI response was not valid JSON.'')"
    by (rule generate_null) (simp_all add: tableRuntime_def)
  have "generateDataWithAI (tableRuntime [] [(''null'', JNull), (''42'', JNum (Fin 42))])
      (Inr (Some ''42''))
     = Inr \<lparr>message = (if truthy (field (JNum (Fin 42)) ''message'')
                          then field (JNum (Fin 42)) ''message'' else JStr ''Here is the plan.''),
            actions = (case field (JNum (Fin 42)) ''actions'' of JArr xs \<Rightarrow> xs | _ \<Rightarrow> [])\<rparr>"
    by (rule generate_non_null) (simp_all add: tableRuntime_def)
  then show "generateDataWithAI (tableRuntime [] [(''null'', JNull), (''42'', JNum (Fin 42))])
      (Inr (Some ''42''))
     = Inr \<lparr>message = JStr ''Here is the plan.'', actions = []\<rparr>"
    by (simp add: field_def)
qed

section \<open>Expansion of tree nodes\<close>

lemma isObject_iff: "isObject v \<longleftrightarrow> (\<exists>xs. v = JArr xs) \<or> (\<exists>kvs. v = JObj kvs)"
  by (cases v) simp_all

lemma childNodes_props:
  assumes "c \<in> set (childNodes p n)"
  shows "depth c = depth p + 1 \<and> path c = displayPath p \<and> dbUrl c = dbUrl p"
  using assms by (auto simp: childNodes_def split: if_splits)

text \<open>
  C9 (as amended). A node has a toggle, and can show children, only when its value is an
  object or an array. A node starts expanded exactly when its depth is 0: the nodes of the
  top level start expanded, and every child a node renders, one level deeper, starts
  collapsed.
\<close>

theorem node_expansion:
  "(hasToggle p \<longleftrightarrow> (\<exists>xs. val p = JArr xs) \<or> (\<exists>kvs. val p = JObj kvs))
   \<and> (showsChildren p n \<longrightarrow> hasToggle p \<and> expanded n)
   \<and> (\<not> hasToggle p \<longrightarrow> childNodes p n = [])
   \<and> (expanded (initialNode p) \<longleftrightarrow> depth p = 0)
   \<and> (\<forall>c\<in>set (childNodes p n). depth c = depth p + 1 \<and> \<not> expanded (initialNode c))"
proof (intro conjI)
  show "hasToggle p \<longleftrightarrow> (\<exists>xs. val p = JArr xs) \<or> (\<exists>kvs. val p = JObj kvs)"
    by (simp add: hasToggle_def isObject_iff)
  show "showsChildren p n \<longrightarrow> hasToggle p \<and> expanded n"
    by (simp add: showsChildren_def hasToggle_def)
  show "\<not> hasToggle p \<longrightarrow> childNodes p n = []"
    by (simp add: childNodes_def showsChildren_def hasToggle_def)
  show "expanded (initialNode p) \<longleftrightarrow> depth p = 0"
    by (auto simp: initialNode_def)
  show "\<forall>c\<in>set (childNodes p n). depth c = depth p + 1 \<and> \<not> expanded (initialNode c)"
  proof
    fix c assume "c \<in> set (childNodes p n)"
    then have "depth c = depth p + 1" by (simp add: childNodes_props)
    then show "depth c = depth p + 1 \<and> \<not> expanded (initialNode c)"
      by (simp add: initialNode_def)
  qed
qed

theorem node_expansion_witness:
  "showsChildren \<lparr>path = [], name = ''users'', val = JObj [(''alice'', JObj [(''age'', JNum (Fin 30))])],
                  dbUrl = ''my-project'', depth = 0\<rparr>
     (initialNode \<lparr>path = [], name = ''users'', val = JObj [(''alice'', JObj [(''age'', JNum (Fin 30))])],
                   dbUrl = ''my-project'', depth = 0\<rparr>)
   \<and> \<lparr>path = ''users'', name = ''alice'', val = JObj [(''age'', JNum (Fin 30))],
        dbUrl = ''my-project'', depth = 1\<rparr>
      \<in> set (childNodes
          \<lparr>path = [], name = ''users'', val = JObj [(''alice'', JObj [(''age'', JNum (Fin 30))])],
           dbUrl = ''my-project'', depth = 0\<rparr>
          (initialNode \<lparr>path = [], name = ''users'', val = JObj [(''alice'', JObj [(''age'', JNum (Fin 30))])],
                        dbUrl = ''my-project'', depth = 0\<rparr>))
   \<and> hasToggle \<lparr>path = [], name = ''users'', val = JObj [(''alice'', JObj [(''age'', JNum (Fin 30))])],
                 dbUrl = ''my-project'', depth = 0\<rparr>
   \<and> \<not> expanded (initialNode \<lparr>path = ''users'', name = ''alice'', val = JObj [(''age'', JNum (Fin 30))],
                                dbUrl = ''my-project'', depth = 1\<rparr>)"
proof -
  let ?p = "\<lparr>path = [], name = ''users'', val = JObj [(''alice'', JObj [(''age'', JNum (Fin 30))])],
             dbUrl = ''my-project'', depth = 0\<rparr>"
  let ?c = "\<lparr>path = ''users'', name = ''alice'', val = JObj [(''age'', JNum (Fin 30))],
             dbUrl = ''my-project'', depth = 1\<rparr>"
  have 1: "showsChildren ?p (initialNode ?p)"
    by (simp add: showsChildren_def initialNode_def)
  have 2: "?c \<in> set (childNodes ?p (initialNode ?p))"
    by (simp add: childNodes_def showsChildren_def initialNode_def entries_def displayPath_def)
  note t = node_expansion [of ?p "initialNode ?p"]
  from t 1 have 3: "hasToggle ?p" by (elim conjE) (erule mp [THEN conjunct1])
  from t have "\<forall>c\<in>set (childNodes ?p (initialNode ?p)).
      depth c = depth ?p + 1 \<and> \<not> expanded (initialNode c)"
    by (elim conjE)
  then have "depth ?c = depth ?p + 1 \<and> \<not> expanded (initialNode ?c)"
    using 2 by (rule bspec)
  then have 4: "\<not> expanded (initialNode ?c)" by (rule conjunct2)
  show ?thesis by (intro conjI 1 2 3 4)
qed

text \<open>
  C9 as stated fails: a node of depth 1, in the second of the two shallowest levels, starts
  collapsed.
\<close>

theorem depth_one_starts_collapsed:
  "\<not> expanded (initialNode \<lparr>path = ''users'', name = ''alice'', val = JObj [(''age'', JNum (Fin 30))],
                             dbUrl = ''my-project'', depth = 1\<rparr>)"
  by (simp add: initialNode_def)

section \<open>Plan execution\<close>

lemma deleteData_requests:
  "requests (snd (deleteData srv u p w)) =
     requests w @ [\<lparr>httpMethod = ''DELETE'', endpoint = buildEndpoint u p, body = None\<rparr>]"
  by (simp add: deleteData_def fetch_def Let_def split: prod.splits)

lemma updateData_requests:
  "requests (snd (updateData srv u p d w)) =
     requests w @ [\<lparr>httpMethod = ''PATCH'', endpoint = buildEndpoint u p, body = stringified d\<rparr>]"
  by (simp add: updateData_def fetch_def Let_def split: prod.splits)

lemma readData_requests:
  "requests (snd (readData srv u p w)) =
     requests w @ [\<lparr>httpMethod = ''GET'', endpoint = buildEndpoint u p, body = None\<rparr>]"
  by (simp add: readData_def fetch_def Let_def split: prod.splits)

lemma execAction_requests:
  "\<exists>rs. requests (snd (execAction rt srv b a w)) = requests w @ rs \<and> length rs \<le> 1"
proof (cases "member a ''path''")
  case None
  then show ?thesis by (simp add: execAction_def)
next
  case (Some v)
  show ?thesis
  proof (cases v)
    case (JStr s)
    with Some show ?thesis
      by (simp add: execAction_def Let_def deleteData_requests writeData_requests
            updateData_requests)
  qed (use Some in \<open>simp_all add: execAction_def\<close>)
qed

lemma runActions_append:
  "runActions rt srv b (xs @ ys) c w =
     (case runActions rt srv b xs c w of
        (Inl e, w') \<Rightarrow> (Inl e, w')
      | (Inr n, w') \<Rightarrow> runActions rt srv b ys n w')"
  by (induction xs arbitrary: c w) (auto split: prod.splits sum.splits)

lemma runActions_count:
  "runActions rt srv b xs c w = (Inr n, w') \<Longrightarrow> n = c + length xs"
proof (induction xs arbitrary: c w)
  case Nil
  then show ?case by simp
next
  case (Cons a xs)
  obtain r w1 where ex: "execAction rt srv b a w = (r, w1)"
    by (cases "execAction rt srv b a w")
  show ?case
  proof (cases r)
    case (Inl e)
    with ex Cons.prems show ?thesis by simp
  next
    case (Inr u)
    with ex Cons.prems have "runActions rt srv b xs (c + 1) w1 = (Inr n, w')" by simp
    then have "n = (c + 1) + length xs" by (rule Cons.IH)
    then show ?thesis by simp
  qed
qed

lemma runActions_requests:
  "\<exists>rs. requests (snd (runActions rt srv b xs c w)) = requests w @ rs \<and> length rs \<le> length xs"
proof (induction xs arbitrary: c w)
  case Nil
  then show ?case by simp
next
  case (Cons a xs)
  obtain r w1 where ex: "execAction rt srv b a w = (r, w1)"
    by (cases "execAction rt srv b a w")
  from execAction_requests [of rt srv b a w] ex
  obtain rs1 where rs1: "requests w1 = requests w @ rs1" "length rs1 \<le> 1" by auto
  show ?case
  proof (cases r)
    case (Inl e)
    with ex rs1 show ?thesis by auto
  next
    case (Inr u)
    from Cons.IH [of "c + 1" w1]
    obtain rs2 where rs2: "requests (snd (runActions rt srv b xs (c + 1) w1)) = requests w1 @ rs2"
      "length rs2 \<le> length xs" by auto
    with Inr ex rs1 have "requests (snd (runActions rt srv b (a # xs) c w)) = requests w @ (rs1 @ rs2)"
      "length (rs1 @ rs2) \<le> length (a # xs)" by auto
    then show ?thesis by blast
  qed
qed

lemma runActions_fails_at:
  assumes "k < length xs"
    and "runActions rt srv b (take k xs) c w = (Inr n, wk)"
    and "execAction rt srv b (xs ! k) wk = (Inl e, wx)"
  shows "runActions rt srv b xs c w = (Inl e, wx)"
proof -
  have "xs = take k xs @ (xs ! k) # drop (Suc k) xs"
    using assms(1) by (rule id_take_nth_drop)
  then have "runActions rt srv b xs c w =
      runActions rt srv b (take k xs @ (xs ! k) # drop (Suc k) xs) c w" by simp
  also have "\<dots> = (Inl e, wx)"
    by (simp add: runActions_append assms(2,3))
  finally show ?thesis .
qed


lemma runActions_failure_point:
  "runActions rt srv b xs c w = (Inl e, w') \<Longrightarrow>
     \<exists>k<length xs. \<exists>wk. runActions rt srv b (take k xs) c w = (Inr (c + k), wk)
        \<and> execAction rt srv b (xs ! k) wk = (Inl e, w')"
proof (induction xs arbitrary: c w)
  case Nil
  then show ?case by simp
next
  case (Cons a xs)
  obtain r w1 where ex: "execAction rt srv b a w = (r, w1)"
    by (cases "execAction rt srv b a w")
  show ?case
  proof (cases r)
    case (Inl e')
    with ex Cons.prems have "execAction rt srv b a w = (Inl e, w')" by simp
    then have "runActions rt srv b (take 0 (a # xs)) c w = (Inr (c + 0), w)
        \<and> execAction rt srv b ((a # xs) ! 0) w = (Inl e, w')" by simp
    then show ?thesis by (intro exI [of _ 0] exI [of _ w] conjI) simp_all
  next
    case (Inr u)
    with ex Cons.prems have "runActions rt srv b xs (c + 1) w1 = (Inl e, w')" by simp
    from Cons.IH [OF this] obtain k wk where k: "k < length xs"
      "runActions rt srv b (take k xs) (c + 1) w1 = (Inr (c + 1 + k), wk)"
      "execAction rt srv b (xs ! k) wk = (Inl e, w')" by blast
    from k(2) ex Inr have "runActions rt srv b (take (Suc k) (a # xs)) c w = (Inr (c + Suc k), wk)"
      by simp
    moreover from k(3) have "execAction rt srv b ((a # xs) ! Suc k) wk = (Inl e, w')" by simp
    moreover from k(1) have "Suc k < length (a # xs)" by simp
    ultimately show ?thesis by blast
  qed
qed

lemma fetchRootData_frame:
  assumes "fetchRootData rt srv st w = (st', w')"
  shows "showAiModal st' = showAiModal st \<and> aiPrompt st' = aiPrompt st \<and> aiPath st' = aiPath st
    \<and> aiResult st' = aiResult st
    \<and> requests w' = requests w @ [\<lparr>httpMethod = ''GET'', endpoint = buildEndpoint (url (dbInfo st)) [],
                                      body = None\<rparr>]"
proof -
  obtain r w1 where rd: "readData srv (url (dbInfo st)) [] w = (r, w1)"
    by (cases "readData srv (url (dbInfo st)) [] w")
  then have "requests w1 = requests w @ [\<lparr>httpMethod = ''GET'', endpoint = buildEndpoint (url (dbInfo st)) [],
                                      body = None\<rparr>]"
    using readData_requests [of srv "url (dbInfo st)" "[]" w] by simp
  with assms rd show ?thesis
    by (cases r; cases "viewMode st = Raw") (auto simp: fetchRootData_def Let_def notify_def)
qed

text \<open>
  C1 (as amended). The actions of a confirmed plan are applied in list order. When the
  first \<open>k\<close> actions succeed and action \<open>k\<close> fails, exactly \<open>k\<close> actions were counted, the
  run ends in the world the failing action left (nothing is attempted after it and nothing
  done before it is undone: each action makes at most one request), and the error
  notification is \<open>Error executing plan: \<close> followed by the message of the failing action's
  error. The notification does not tell how many actions were completed.
\<close>

theorem plan_stops_at_first_failure:
  assumes "aiResult st = Some plan" and "k < length (actions plan)"
    and "runActions rt srv (url (dbInfo st)) (take k (actions plan)) 0 w = (Inr n, wk)"
    and "execAction rt srv (url (dbInfo st)) (actions plan ! k) wk = (Inl e, wx)"
  shows "n = k
     \<and> handleExecuteAiPlan rt srv st w =
         ((notify (''Error executing plan: '' @ errMessage e) ''error'' st)\<lparr>loading := False\<rparr>, wx)
     \<and> (\<exists>rs. requests wk = requests w @ rs \<and> length rs \<le> k)
     \<and> (\<exists>rs. requests wx = requests wk @ rs \<and> length rs \<le> 1)"
proof (intro conjI)
  from assms(3) have "n = 0 + length (take k (actions plan))" by (rule runActions_count)
  with assms(2) show "n = k" by simp
  have run: "runActions rt srv (url (dbInfo st)) (actions plan) 0 w = (Inl e, wx)"
    using assms(2,3,4) by (rule runActions_fails_at)
  from assms(2) have ne: "actions plan \<noteq> []" by auto
  show "handleExecuteAiPlan rt srv st w =
      ((notify (''Error executing plan: '' @ errMessage e) ''error'' st)\<lparr>loading := False\<rparr>, wx)"
    by (simp add: handleExecuteAiPlan_def assms(1) ne run Let_def notify_def)
  from runActions_requests [of rt srv "url (dbInfo st)" "take k (actions plan)" 0 w] assms(2,3)
  show "\<exists>rs. requests wk = requests w @ rs \<and> length rs \<le> k" by auto
  from execAction_requests [of rt srv "url (dbInfo st)" "actions plan ! k" wk] assms(4)
  show "\<exists>rs. requests wx = requests wk @ rs \<and> length rs \<le> 1" by auto
qed

text \<open>
  C10. When an action of the executing plan fails, the dialog state is left as it was:
  the modal flag, the prompt, the target path and the proposed plan are unchanged, the data
  shown is unchanged, and no request follows the failing one, so the root is not re-read.
  Only when every action has succeeded is the modal closed, are prompt, path and plan reset,
  and is the root read again. The run fails exactly when some action fails after the
  actions before it succeeded.
\<close>

theorem failed_plan_keeps_dialog:
  assumes "aiResult st = Some plan" and "actions plan \<noteq> []"
    and "runActions rt srv (url (dbInfo st)) (actions plan) 0 w = (r, w1)"
    and "handleExecuteAiPlan rt srv st w = (st', w')"
  shows "((\<exists>e. r = Inl e) \<longrightarrow>
            showAiModal st' = showAiModal st \<and> aiPrompt st' = aiPrompt st
            \<and> aiPath st' = aiPath st \<and> aiResult st' = aiResult st
            \<and> appData st' = appData st \<and> w' = w1)
     \<and> ((\<exists>n. r = Inr n) \<longrightarrow>
            r = Inr (length (actions plan))
            \<and> \<not> showAiModal st' \<and> aiPrompt st' = [] \<and> aiPath st' = [] \<and> aiResult st' = None
            \<and> requests w' = requests w1 @
                 [\<lparr>httpMethod = ''GET'', endpoint = buildEndpoint (url (dbInfo st)) [], body = None\<rparr>])
     \<and> ((\<exists>e. r = Inl e) \<longleftrightarrow>
          (\<exists>k<length (actions plan). \<exists>n wk e wx.
              runActions rt srv (url (dbInfo st)) (take k (actions plan)) 0 w = (Inr n, wk)
              \<and> execAction rt srv (url (dbInfo st)) (actions plan ! k) wk = (Inl e, wx)))"
proof (intro conjI)
  show "(\<exists>e. r = Inl e) \<longrightarrow>
            showAiModal st' = showAiModal st \<and> aiPrompt st' = aiPrompt st
            \<and> aiPath st' = aiPath st \<and> aiResult st' = aiResult st
            \<and> appData st' = appData st \<and> w' = w1"
    using assms by (auto simp: handleExecuteAiPlan_def Let_def notify_def)
next
  show "(\<exists>n. r = Inr n) \<longrightarrow>
            r = Inr (length (actions plan))
            \<and> \<not> showAiModal st' \<and> aiPrompt st' = [] \<and> aiPath st' = [] \<and> aiResult st' = None
            \<and> requests w' = requests w1 @
                 [\<lparr>httpMethod = ''GET'', endpoint = buildEndpoint (url (dbInfo st)) [], body = None\<rparr>]"
  proof
  assume "\<exists>n. r = Inr n"
  then obtain n where r: "r = Inr n" ..
  with assms(3) have "n = 0 + length (actions plan)" by (intro runActions_count) simp
  then have len: "r = Inr (length (actions plan))" using r by simp
  define st3 where "st3 = (notify (''Successfully executed '' @ showNat n @ '' actions.'') ''success''
      (st\<lparr>loading := True\<rparr>))\<lparr>showAiModal := False, aiPrompt := [], aiPath := [], aiResult := None\<rparr>"
  obtain st4 w2 where f: "fetchRootData rt srv st3 w1 = (st4, w2)"
    by (cases "fetchRootData rt srv st3 w1")
  from assms r f have res: "st' = st4\<lparr>loading := False\<rparr>" "w' = w2"
    by (auto simp: handleExecuteAiPlan_def Let_def st3_def)
  from fetchRootData_frame [OF f]
  have "showAiModal st4 = showAiModal st3 \<and> aiPrompt st4 = aiPrompt st3 \<and> aiPath st4 = aiPath st3
    \<and> aiResult st4 = aiResult st3
    \<and> requests w2 = requests w1 @ [\<lparr>httpMethod = ''GET'', endpoint = buildEndpoint (url (dbInfo st3)) [],
                                      body = None\<rparr>]" .
  moreover have "\<not> showAiModal st3" "aiPrompt st3 = []" "aiPath st3 = []" "aiResult st3 = None"
    "dbInfo st3 = dbInfo st"
    by (simp_all add: st3_def notify_def)
  ultimately show "r = Inr (length (actions plan))
            \<and> \<not> showAiModal st' \<and> aiPrompt st' = [] \<and> aiPath st' = [] \<and> aiResult st' = None
            \<and> requests w' = requests w1 @
                 [\<lparr>httpMethod = ''GET'', endpoint = buildEndpoint (url (dbInfo st)) [], body = None\<rparr>]"
    using res len by simp
  qed
next
  show "(\<exists>e. r = Inl e) \<longleftrightarrow>
          (\<exists>k<length (actions plan). \<exists>n wk e wx.
              runActions rt srv (url (dbInfo st)) (take k (actions plan)) 0 w = (Inr n, wk)
              \<and> execAction rt srv (url (dbInfo st)) (actions plan ! k) wk = (Inl e, wx))"
  proof
    assume "\<exists>e. r = Inl e"
    then obtain e where "runActions rt srv (url (dbInfo st)) (actions plan) 0 w = (Inl e, w1)"
      using assms(3) by auto
    from runActions_failure_point [OF this] show "\<exists>k<length (actions plan). \<exists>n wk e wx.
              runActions rt srv (url (dbInfo st)) (take k (actions plan)) 0 w = (Inr n, wk)
              \<and> execAction rt srv (url (dbInfo st)) (actions plan ! k) wk = (Inl e, wx)"
      by blast
  next
    assume "\<exists>k<length (actions plan). \<exists>n wk e wx.
              runActions rt srv (url (dbInfo st)) (take k (actions plan)) 0 w = (Inr n, wk)
              \<and> execAction rt srv (url (dbInfo st)) (actions plan ! k) wk = (Inl e, wx)"
    then obtain k n wk e wx where "k < length (actions plan)"
      "runActions rt srv (url (dbInfo st)) (take k (actions plan)) 0 w = (Inr n, wk)"
      "execAction rt srv (url (dbInfo st)) (actions plan ! k) wk = (Inl e, wx)" by blast
    then have "runActions rt srv (url (dbInfo st)) (actions plan) 0 w = (Inl e, wx)"
      by (rule runActions_fails_at)
    with assms(3) show "\<exists>e. r = Inl e" by auto
  qed
qed

theorem plan_stops_at_first_failure_witness:
  "handleExecuteAiPlan (tableRuntime [] []) deleteDenied
      (connectedApp ''my-project'' (Some \<lparr>message = JStr ''ok'', actions = [setTheme, deleteUser]\<rparr>))
      emptyWorld
   = ((notify (''Error executing plan: '' @ ''Failed to delete data: Forbidden'') ''error''
         (connectedApp ''my-project'' (Some \<lparr>message = JStr ''ok'', actions = [setTheme, deleteUser]\<rparr>)))
        \<lparr>loading := False\<rparr>,
      \<lparr>requests =
         [\<lparr>httpMethod = ''PUT'', endpoint = ''https://my-project.firebaseio.com/settings/theme.json'',
           body = Some (JStr ''dark'')\<rparr>,
          \<lparr>httpMethod = ''DELETE'', endpoint = ''https://my-project.firebaseio.com/users/1.json'',
           body = None\<rparr>],
       alerts = [], refreshes = 0\<rparr>)"
proof -
  let ?plan = "\<lparr>message = JStr ''ok'', actions = [setTheme, deleteUser]\<rparr>"
  let ?st = "connectedApp ''my-project'' (Some ?plan)"
  let ?rt = "tableRuntime [] []"
  let ?wk = "\<lparr>requests =
         [\<lparr>httpMethod = ''PUT'', endpoint = ''https://my-project.firebaseio.com/settings/theme.json'',
           body = Some (JStr ''dark'')\<rparr>], alerts = [], refreshes = 0\<rparr>"
  let ?wx = "\<lparr>requests =
         [\<lparr>httpMethod = ''PUT'', endpoint = ''https://my-project.firebaseio.com/settings/theme.json'',
           body = Some (JStr ''dark'')\<rparr>,
          \<lparr>httpMethod = ''DELETE'', endpoint = ''https://my-project.firebaseio.com/users/1.json'',
           body = None\<rparr>], alerts = [], refreshes = 0\<rparr>"
  have 1: "aiResult ?st = Some ?plan" by (simp add: connectedApp_def)
  have 2: "1 < length (actions ?plan)" by simp
  have 3: "runActions ?rt deleteDenied (url (dbInfo ?st)) (take 1 (actions ?plan)) 0 emptyWorld
             = (Inr 1, ?wk)"
    by code_simp
  have 4: "execAction ?rt deleteDenied (url (dbInfo ?st)) (actions ?plan ! 1) ?wk
             = (Inl (mkError ''Failed to delete data: Forbidden''), ?wx)"
    by code_simp
  have 5: "errMessage (mkError ''Failed to delete data: Forbidden'') = ''Failed to delete data: Forbidden''"
    by (simp add: mkError_def)
  from plan_stops_at_first_failure [OF 1 2 3 4] show ?thesis
    unfolding 5 by (rule conjunct2 [THEN conjunct1])
qed


text \<open>
  C1 as stated fails in its last part. Against a store that refuses deletions, the plan
  \<open>[DELETE, SET]\<close> fails with no action completed and the plan \<open>[SET, DELETE]\<close> fails with
  one action completed, one request more having been made; the failure report is the same
  text in both runs, so it does not include the number of completed actions.
\<close>

theorem failure_report_omits_count:
  "notifications (fst (handleExecuteAiPlan (tableRuntime [] []) deleteDenied
      (connectedApp ''my-project'' (Some \<lparr>message = JStr ''ok'', actions = [deleteUser, setTheme]\<rparr>))
      emptyWorld))
     = [\<lparr>n_type = ''error'', n_message = ''Error executing plan: Failed to delete data: Forbidden''\<rparr>]
   \<and> length (requests (snd (handleExecuteAiPlan (tableRuntime [] []) deleteDenied
      (connectedApp ''my-project'' (Some \<lparr>message = JStr ''ok'', actions = [deleteUser, setTheme]\<rparr>))
      emptyWorld))) = 1
   \<and> notifications (fst (handleExecuteAiPlan (tableRuntime [] []) deleteDenied
      (connectedApp ''my-project'' (Some \<lparr>message = JStr ''ok'', actions = [setTheme, deleteUser]\<rparr>))
      emptyWorld))
     = [\<lparr>n_type = ''error'', n_message = ''Error executing plan: Failed to delete data: Forbidden''\<rparr>]
   \<and> length (requests (snd (handleExecuteAiPlan (tableRuntime [] []) deleteDenied
      (connectedApp ''my-project'' (Some \<lparr>message = JStr ''ok'', actions = [setTheme, deleteUser]\<rparr>))
      emptyWorld))) = 2"
  by code_simp

theorem failed_plan_keeps_dialog_witness:
  "(\<exists>e. fst (runActions (tableRuntime [] []) deleteDenied ''my-project'' [deleteUser, setTheme] 0 emptyWorld)
          = Inl e)
   \<and> showAiModal (fst (handleExecuteAiPlan (tableRuntime [] []) deleteDenied
        (connectedApp ''my-project'' (Some \<lparr>message = JStr ''ok'', actions = [deleteUser, setTheme]\<rparr>))
        emptyWorld))
   \<and> aiResult (fst (handleExecuteAiPlan (tableRuntime [] []) deleteDenied
        (connectedApp ''my-project'' (Some \<lparr>message = JStr ''ok'', actions = [deleteUser, setTheme]\<rparr>))
        emptyWorld))
       = Some \<lparr>message = JStr ''ok'', actions = [deleteUser, setTheme]\<rparr>
   \<and> snd (handleExecuteAiPlan (tableRuntime [] []) deleteDenied
        (connectedApp ''my-project'' (Some \<lparr>message = JStr ''ok'', actions = [deleteUser, setTheme]\<rparr>))
        emptyWorld)
       = snd (runActions (tableRuntime [] []) deleteDenied ''my-project'' [deleteUser, setTheme] 0 emptyWorld)
   \<and> (\<exists>n. fst (runActions (tableRuntime [] []) (replyWith (okResponse JNull)) ''my-project''
                  [deleteUser, setTheme] 0 emptyWorld) = Inr n)
   \<and> \<not> showAiModal (fst (handleExecuteAiPlan (tableRuntime [] []) (replyWith (okResponse JNull))
        (connectedApp ''my-project'' (Some \<lparr>message = JStr ''ok'', actions = [deleteUser, setTheme]\<rparr>))
        emptyWorld))
   \<and> aiResult (fst (handleExecuteAiPlan (tableRuntime [] []) (replyWith (okResponse JNull))
        (connectedApp ''my-project'' (Some \<lparr>message = JStr ''ok'', actions = [deleteUser, setTheme]\<rparr>))
        emptyWorld)) = None"
proof -
  let ?plan = "\<lparr>message = JStr ''ok'', actions = [deleteUser, setTheme]\<rparr>"
  let ?st = "connectedApp ''my-project'' (Some ?plan)"
  let ?rt = "tableRuntime [] []"
  let ?good = "replyWith (okResponse JNull)"
  have u: "url (dbInfo ?st) = ''my-project''" by (simp add: connectedApp_def)
  have 1: "aiResult ?st = Some ?plan" by (simp add: connectedApp_def)
  have 2: "actions ?plan \<noteq> []" by simp
  have m: "showAiModal ?st" by (simp add: connectedApp_def)
  have bad: "fst (runActions ?rt deleteDenied ''my-project'' [deleteUser, setTheme] 0 emptyWorld)
      = Inl (mkError ''Failed to delete data: Forbidden'')"
    by code_simp
  then have b: "\<exists>e. fst (runActions ?rt deleteDenied (url (dbInfo ?st)) (actions ?plan) 0 emptyWorld) = Inl e"
    by (simp add: u)
  have good: "fst (runActions ?rt ?good ''my-project'' [deleteUser, setTheme] 0 emptyWorld) = Inr 2"
    by code_simp
  then have g: "\<exists>n. fst (runActions ?rt ?good (url (dbInfo ?st)) (actions ?plan) 0 emptyWorld) = Inr n"
    by (simp add: u)
  note fail = failed_plan_keeps_dialog [OF 1 2 surjective_pairing surjective_pairing,
      of ?rt deleteDenied emptyWorld, THEN conjunct1, THEN mp, OF b]
  note succ = failed_plan_keeps_dialog [OF 1 2 surjective_pairing surjective_pairing,
      of ?rt ?good emptyWorld, THEN conjunct2, THEN conjunct1, THEN mp, OF g]
  from fail succ b g show ?thesis
    by (simp add: u 1 m)
qed

text \<open>
  C2, at a plan whose only action has the kind \<open>MOVE\<close>. The generator hands the action on
  unchecked; the executor matches none of its three kinds, makes no request for it, counts
  it, reports one action executed, closes the dialog and re-reads the root.
\<close>

theorem unknown_kind_reported_as_executed:
  \<open>generateDataWithAI
      (tableRuntime [] [(''{"message":"Moving user 1.","actions":[{"type":"MOVE","path":"users/1","data":"users/2"}]}'',
                         JObj [(''message'', JStr ''Moving user 1.''), (''actions'', JArr [moveUser])])])
      (Inr (Some ''{"message":"Moving user 1.","actions":[{"type":"MOVE","path":"users/1","data":"users/2"}]}''))
     = Inr \<lparr>message = JStr ''Moving user 1.'', actions = [moveUser]\<rparr>
   \<and> execAction (tableRuntime [] []) (replyWith (okResponse JNull)) ''my-project'' moveUser emptyWorld
     = (Inr (), emptyWorld)
   \<and> notifications (fst (handleExecuteAiPlan (tableRuntime [] []) (replyWith (okResponse JNull))
        (connectedApp ''my-project'' (Some \<lparr>message = JStr ''Moving user 1.'', actions = [moveUser]\<rparr>))
        emptyWorld))
     = [\<lparr>n_type = ''success'', n_message = ''Successfully executed 1 actions.''\<rparr>]
   \<and> requests (snd (handleExecuteAiPlan (tableRuntime [] []) (replyWith (okResponse JNull))
        (connectedApp ''my-project'' (Some \<lparr>message = JStr ''Moving user 1.'', actions = [moveUser]\<rparr>))
        emptyWorld))
     = [\<lparr>httpMethod = ''GET'', endpoint = ''https://my-project.firebaseio.com/.json'', body = None\<rparr>]
   \<and> aiResult (fst (handleExecuteAiPlan (tableRuntime [] []) (replyWith (okResponse JNull))
        (connectedApp ''my-project'' (Some \<lparr>message = JStr ''Moving user 1.'', actions = [moveUser]\<rparr>))
        emptyWorld)) = None\<close>
  by code_simp

end
